theory Spec2Isabelle
  imports Complex_Main
begin

section \<open>SuperTracery: the tracking pipeline of tracker.py, supertracery.py and preview\_server.py\<close>

text \<open>
  Conventions of the embedding.
  \<^item> Python floats are modelled as exact rationals (\<open>rat\<close>): sums, differences and
    quotients are exact, and \<open>round(x, k)\<close> rounds the exact value to \<open>k\<close> decimals, ties to
    even. Binary rounding error of IEEE doubles is not modelled.
  \<^item> A numpy 2-D array is the list of its rows; \<open>uint8\<close> pixels are natural numbers.
  \<^item> \<open>None\<close> is \<open>None\<close>: an absent mask is \<open>None :: mask option\<close>, an unreadable frame is
    \<open>imread\<close> returning \<open>None\<close>.
  \<^item> A raised exception is \<open>Inl e\<close>; a returned value is \<open>Inr v\<close>.
  \<^item> OpenCV (\<open>cv2\<close>) is not part of the repository: its functions are fields of a record
    \<open>cv2\<close> that every modelled function takes as its first argument.
\<close>

subsection \<open>Python numerics\<close>

definition round_half_even :: "rat \<Rightarrow> int" where
  "round_half_even x =
     (let f = \<lfloor>x\<rfloor>; d = x - of_int f
      in if d < 1 / 2 then f
         else if 1 / 2 < d then f + 1
         else if even f then f else f + 1)"

text \<open>\<open>round(x, ndigits)\<close> of Python on a float, for \<open>ndigits \<ge> 0\<close>.\<close>

definition py_round :: "rat \<Rightarrow> nat \<Rightarrow> rat" where
  "py_round x ndigits = of_int (round_half_even (x * 10 ^ ndigits)) / 10 ^ ndigits"

subsection \<open>Errors, arrays and the OpenCV interface\<close>

datatype py_error = IndexError | ValueError | Cv2Error

type_synonym point = "int \<times> int"
type_synonym vec = "rat \<times> rat"
type_synonym mask = "nat list list"
type_synonym gray_image = "nat list list"
type_synonym bgr_image = "(nat \<times> nat \<times> nat) list list"
type_synonym float_image = "rat list list"
type_synonym contour = "point list"
type_synonym flow_field = "(rat \<times> rat) list list"

text \<open>\<open>a.shape\<close> of a 2-D array: \<open>(rows, columns)\<close>.\<close>

definition shape :: "'a list list \<Rightarrow> nat \<times> nat" where
  "shape a = (length a, case a of [] \<Rightarrow> 0 | r # _ \<Rightarrow> length r)"

text \<open>\<open>np.zeros((h, w), dtype=np.uint8)\<close>.\<close>

definition zeros :: "nat \<Rightarrow> nat \<Rightarrow> mask" where
  "zeros h w = replicate h (replicate w 0)"

text \<open>
  The OpenCV calls of the repository whose results are not computed here. \<open>imread\<close> and
  \<open>imread_grayscale\<close> read the file system and return \<open>None\<close> for a file that cannot be
  decoded; \<open>calcOpticalFlowFarneback\<close> and \<open>remap\<close> return \<open>None\<close> where OpenCV raises
  \<open>cv2.error\<close>. \<open>findContours\<close> stands for the call with \<open>RETR_EXTERNAL\<close> and
  \<open>CHAIN_APPROX_SIMPLE\<close>, \<open>approxPolyDP\<close> for the call with \<open>closed = True\<close>.
\<close>

record cv2 =
  imread :: "string \<Rightarrow> bgr_image option"
  imread_grayscale :: "string \<Rightarrow> gray_image option"
  cvtColor_BGR2GRAY :: "bgr_image \<Rightarrow> gray_image"
  findContours :: "mask \<Rightarrow> contour list"
  contourArea :: "contour \<Rightarrow> rat"
  approxPolyDP :: "contour \<Rightarrow> rat \<Rightarrow> contour"
  calcOpticalFlowFarneback :: "gray_image \<Rightarrow> gray_image \<Rightarrow> flow_field option"
  remap :: "float_image \<Rightarrow> float_image \<Rightarrow> float_image \<Rightarrow> float_image option"

text \<open>A \<open>for\<close> loop over indices whose body may raise: the first exception ends the loop.\<close>

fun run_steps :: "(nat \<Rightarrow> 's \<Rightarrow> py_error + 's) \<Rightarrow> nat list \<Rightarrow> 's \<Rightarrow> py_error + 's" where
  "run_steps body [] s = Inr s"
| "run_steps body (i # is) s =
     (case body i s of Inl e \<Rightarrow> Inl e | Inr s' \<Rightarrow> run_steps body is s')"

subsection \<open>Per-frame result dictionaries\<close>

text \<open>The dictionary returned by \<open>analyze_frame\<close>.\<close>

record analysis =
  centroid :: vec
  bbox :: "int \<times> int \<times> int \<times> int"
  polygon :: "point list"
  area :: nat
  avg_luma :: rat
  motion_vector :: vec

text \<open>
  The same dictionary after \<open>run_segment_and_track\<close> has added the keys \<open>frame_index\<close>,
  \<open>time\<close> and \<open>confidence\<close>; the default entry for an absent mask has the same keys.
\<close>

record frame_data = analysis +
  frame_index :: nat
  time :: rat
  confidence :: rat

text \<open>Every key of an entry except \<open>motion_vector\<close>.\<close>

definition non_motion_fields ::
  "frame_data \<Rightarrow> vec \<times> (int \<times> int \<times> int \<times> int) \<times> point list \<times> nat \<times> rat \<times> nat \<times> rat \<times> rat" where
  "non_motion_fields f =
     (centroid f, bbox f, polygon f, area f, avg_luma f, frame_index f, time f, confidence f)"

subsection \<open>tracker.py: smooth\_motion\_vectors\<close>

text \<open>
  The inner loop \<open>for j in range(start, end)\<close>: it accumulates \<open>vx_sum\<close>, \<open>vy_sum\<close> and
  \<open>count\<close>, reading the list as it is at that moment.
\<close>

definition window_sums :: "frame_data list \<Rightarrow> int \<Rightarrow> int \<Rightarrow> rat \<times> rat \<times> nat" where
  "window_sums frames_data start end =
     fold (\<lambda>j (vx_sum, vy_sum, count).
             (vx_sum + fst (motion_vector (frames_data ! nat j)),
              vy_sum + snd (motion_vector (frames_data ! nat j)),
              count + 1))
          [start..end - 1] (0, 0, 0)"

text \<open>
  One iteration of the outer loop \<open>for i in range(n)\<close>. The assignment
  \<open>frames_data[i]["motion_vector"] = ...\<close> writes into the list being read, so the
  following iterations see the new value at index \<open>i\<close>.
\<close>

definition smooth_step :: "nat \<Rightarrow> int \<Rightarrow> nat \<Rightarrow> frame_data list \<Rightarrow> frame_data list" where
  "smooth_step n half i frames_data =
     (let start = max 0 (int i - half);
          end = min (int n) (int i + half + 1);
          (vx_sum, vy_sum, count) = window_sums frames_data start end
      in if count > 0
         then frames_data[i := (frames_data ! i)
                \<lparr>motion_vector := (py_round (vx_sum / of_nat count) 2,
                                   py_round (vy_sum / of_nat count) 2)\<rparr>]
         else frames_data)"

definition smooth_motion_vectors :: "frame_data list \<Rightarrow> int \<Rightarrow> frame_data list" where
  "smooth_motion_vectors frames_data window =
     (let n = length frames_data
      in if int n < window then frames_data
         else fold (smooth_step n (window div 2)) [0..<n] frames_data)"

text \<open>
  The smoother as section 4.6 of the specification words it: index \<open>i\<close> receives the
  rounded average of the \<^emph>\<open>original\<close> motion vectors over the truncated window.
\<close>

definition spec_window_average :: "frame_data list \<Rightarrow> int \<Rightarrow> nat \<Rightarrow> vec" where
  "spec_window_average track window i =
     (let n = length track; half = window div 2;
          start = max 0 (int i - half);
          end = min (int n) (int i + half + 1);
          vs = map (\<lambda>j. motion_vector (track ! nat j)) [start..end - 1]
      in (py_round (sum_list (map fst vs) / of_nat (length vs)) 2,
          py_round (sum_list (map snd vs) / of_nat (length vs)) 2))"

text \<open>A track whose only interesting field is the motion vector.\<close>

definition mk_frame :: "nat \<Rightarrow> vec \<Rightarrow> frame_data" where
  "mk_frame k v =
     \<lparr>centroid = (0, 0), bbox = (0, 0, 0, 0), polygon = [], area = 0, avg_luma = 0,
      motion_vector = v, frame_index = k, time = py_round (of_nat k / 30) 6,
      confidence = 0\<rparr>"

definition scenario_track :: "frame_data list" where
  "scenario_track = map2 mk_frame [0, 1, 2, 3, 4] [(0, 0), (2, 0), (4, 0), (2, 0), (0, 0)]"

subsection \<open>tracker.py: \_mask\_to\_polygon\<close>

text \<open>\<open>max(contours, key=cv2.contourArea)\<close>: the first contour of maximal area.\<close>

definition largest_contour :: "cv2 \<Rightarrow> contour \<Rightarrow> contour list \<Rightarrow> contour" where
  "largest_contour cv c cs =
     fold (\<lambda>x best. if contourArea cv best < contourArea cv x then x else best) cs c"

text \<open>
  The loop \<open>for _ in range(20)\<close>, with the remaining number of iterations as first
  numeric argument; \<open>approx\<close> is the value of the variable of that name when the loop is
  entered (unbound before the first iteration).
\<close>

fun simplify_loop :: "cv2 \<Rightarrow> contour \<Rightarrow> int \<Rightarrow> nat \<Rightarrow> rat \<Rightarrow> contour \<Rightarrow> contour" where
  "simplify_loop cv contour max_points 0 epsilon approx = approx"
| "simplify_loop cv contour max_points (Suc k) epsilon approx =
     (let approx' = approxPolyDP cv contour epsilon
      in if int (length approx') \<le> max_points then approx'
         else simplify_loop cv contour max_points k (epsilon * (3 / 2)) approx')"

text \<open>
  \<open>approx.squeeze().tolist()\<close> turns the \<open>k \<times> 1 \<times> 2\<close> array into the list of its \<open>k\<close>
  points; for \<open>k = 1\<close> the bare pair it yields is wrapped again by the
  \<open>isinstance(polygon[0], int)\<close> branch. For \<open>k = 0\<close> the test \<open>polygon[0]\<close> raises
  \<open>IndexError\<close>.
\<close>

definition mask_to_polygon :: "cv2 \<Rightarrow> mask \<Rightarrow> int \<Rightarrow> py_error + point list" where
  "mask_to_polygon cv msk max_points =
     (case findContours cv msk of
        [] \<Rightarrow> Inr []
      | c # cs \<Rightarrow>
          (let contour = largest_contour cv c cs;
               approx = simplify_loop cv contour max_points 20 2 []
           in if approx = [] then Inl IndexError else Inr approx))"

subsection \<open>tracker.py: analyze\_frame\<close>

text \<open>The pixels of an array in row-major order, each with its column \<open>x\<close> and row \<open>y\<close>.\<close>

definition pixels :: "'a list list \<Rightarrow> (nat \<times> nat \<times> 'a) list" where
  "pixels a = concat (map (\<lambda>(y, row). map (\<lambda>(x, v). (x, y, v)) (enumerate 0 row)) (enumerate 0 a))"

text \<open>\<open>cv2.moments(mask)\<close>: the raw moments \<open>m00\<close>, \<open>m10\<close>, \<open>m01\<close> of the pixel values.\<close>

definition moments :: "mask \<Rightarrow> rat \<times> rat \<times> rat" where
  "moments msk =
     (sum_list (map (\<lambda>(x, y, v). of_nat v) (pixels msk)),
      sum_list (map (\<lambda>(x, y, v). of_nat x * of_nat v) (pixels msk)),
      sum_list (map (\<lambda>(x, y, v). of_nat y * of_nat v) (pixels msk)))"

text \<open>\<open>cv2.findNonZero(mask)\<close>: the coordinates of the nonzero pixels, \<open>None\<close> if there are none.\<close>

definition findNonZero :: "mask \<Rightarrow> (nat \<times> nat) list option" where
  "findNonZero msk =
     (let coords = map (\<lambda>(x, y, v). (x, y)) (filter (\<lambda>(x, y, v). 0 < v) (pixels msk))
      in if coords = [] then None else Some coords)"

text \<open>\<open>cv2.boundingRect(coords)\<close> for a non-empty point list: \<open>(x, y, width, height)\<close>.\<close>

definition boundingRect :: "(nat \<times> nat) list \<Rightarrow> nat \<times> nat \<times> nat \<times> nat" where
  "boundingRect coords =
     (let xs = map fst coords; ys = map snd coords;
          x1 = fold min xs (hd xs); x2 = fold max xs (hd xs);
          y1 = fold min ys (hd ys); y2 = fold max ys (hd ys)
      in (x1, y1, x2 - x1 + 1, y2 - y1 + 1))"

text \<open>
  \<open>gray[mask > 0]\<close>: numpy raises \<open>IndexError\<close> unless the boolean index has the shape of
  the indexed array.
  (An empty boolean index, which no frame or mask read from a file is, is accepted by
  numpy whatever the shape; the model raises there.)
\<close>

definition masked_pixels :: "gray_image \<Rightarrow> mask \<Rightarrow> py_error + nat list" where
  "masked_pixels gray msk =
     (if shape gray \<noteq> shape msk then Inl IndexError
      else Inr (map (\<lambda>(x, y, v). gray ! y ! x) (filter (\<lambda>(x, y, v). 0 < v) (pixels msk))))"

definition analyze_frame :: "cv2 \<Rightarrow> string \<Rightarrow> mask \<Rightarrow> vec option \<Rightarrow> py_error + analysis" where
  "analyze_frame cv image_path msk prev_centroid =
     (let image = imread cv image_path;
          (h, w) = shape msk;
          (m00, m10, m01) = moments msk;
          (cx, cy) = (if 0 < m00 then (m10 / m00, m01 / m00) else (of_nat w / 2, of_nat h / 2));
          centroid' = (py_round cx 2, py_round cy 2);
          bbox' = (case findNonZero msk of
                     Some coords \<Rightarrow>
                       (let (x1, y1, bw, bh) = boundingRect coords
                        in (int x1, int y1, int (x1 + bw), int (y1 + bh)))
                   | None \<Rightarrow> (0, 0, int w, int h));
          area' = length (filter (\<lambda>(x, y, v). 0 < v) (pixels msk))
      in case mask_to_polygon cv msk 64 of
           Inl e \<Rightarrow> Inl e
         | Inr polygon' \<Rightarrow>
            (case image of
               None \<Rightarrow> Inl Cv2Error
             | Some img \<Rightarrow>
                (case masked_pixels (cvtColor_BGR2GRAY cv img) msk of
                   Inl e \<Rightarrow> Inl e
                 | Inr px \<Rightarrow>
                    (let avg_luma' =
                           (if 0 < length px
                            then py_round (of_nat (sum_list px) / of_nat (length px) / 255) 4
                            else 0);
                         motion_vector' =
                           (case prev_centroid of
                              Some prev \<Rightarrow> (py_round (fst centroid' - fst prev) 2,
                                            py_round (snd centroid' - snd prev) 2)
                            | None \<Rightarrow> (0, 0))
                     in Inr \<lparr>centroid = centroid', bbox = bbox', polygon = polygon',
                             area = area', avg_luma = avg_luma',
                             motion_vector = motion_vector'\<rparr>))))"

subsection \<open>tracker.py: \_fallback\_propagate\<close>

text \<open>
  The state of the propagation loop. \<open>all_masks\<close> is the dictionary of the source, kept
  as an association list in insertion order (its keys are distinct, as a dictionary's
  are); \<open>prev_gray\<close> is the variable of that name. \<open>flow_steps\<close> is not a variable of the
  program: it records, in order, the steps \<open>i\<close> at which
  \<open>cv2.calcOpticalFlowFarneback\<close> was called.
\<close>

record prop_state =
  all_masks :: "(int \<times> mask option list) list"
  prev_gray :: "gray_image option"
  flow_steps :: "nat list"

text \<open>\<open>prev_mask.astype(np.float32)\<close> and \<open>(warped > 0.5).astype(np.uint8)\<close>.\<close>

definition astype_float32 :: "mask \<Rightarrow> float_image" where
  "astype_float32 msk = map (map of_nat) msk"

definition threshold :: "float_image \<Rightarrow> mask" where
  "threshold warped = map (map (\<lambda>v. if 1 / 2 < v then 1 else 0)) warped"

text \<open>
  \<open>map_x = grid_x + flow[:, :, 0]\<close> and \<open>map_y = grid_y + flow[:, :, 1]\<close> over the
  \<open>h \<times> w\<close> grid; numpy raises \<open>ValueError\<close> when the shapes cannot be broadcast.
\<close>

definition remap_grids :: "nat \<Rightarrow> nat \<Rightarrow> flow_field \<Rightarrow> py_error + float_image \<times> float_image" where
  "remap_grids h w flow =
     (if shape flow \<noteq> (h, w) then Inl ValueError
      else Inr (map (\<lambda>y. map (\<lambda>x. of_nat x + fst (flow ! y ! x)) [0..<w]) [0..<h],
                map (\<lambda>y. map (\<lambda>x. of_nat y + snd (flow ! y ! x)) [0..<w]) [0..<h]))"

text \<open>The body of \<open>for obj_id in all_masks\<close> for one object, given its mask at \<open>i - 1\<close>.\<close>

definition warp_previous ::
  "cv2 \<Rightarrow> float_image \<Rightarrow> float_image \<Rightarrow> nat \<Rightarrow> nat \<Rightarrow> mask option \<Rightarrow> py_error + mask option" where
  "warp_previous cv map_x map_y h w prev_mask =
     (case prev_mask of
        None \<Rightarrow> Inr (Some (zeros h w))
      | Some m \<Rightarrow>
          (case remap cv (astype_float32 m) map_x map_y of
             None \<Rightarrow> Inl Cv2Error
           | Some warped \<Rightarrow> Inr (Some (threshold warped))))"

fun warp_objects ::
  "(mask option \<Rightarrow> py_error + mask option) \<Rightarrow> nat \<Rightarrow> (int \<times> mask option list) list
   \<Rightarrow> py_error + (int \<times> mask option list) list" where
  "warp_objects f i [] = Inr []"
| "warp_objects f i ((obj_id, ms) # rest) =
     (case f (ms ! (i - 1)) of
        Inl e \<Rightarrow> Inl e
      | Inr m \<Rightarrow>
          (case warp_objects f i rest of
             Inl e \<Rightarrow> Inl e
           | Inr rest' \<Rightarrow> Inr ((obj_id, ms[i := m]) # rest')))"

text \<open>
  One iteration of \<open>for i in range(1, total_frames)\<close>. Every mask list has length
  \<open>total_frames\<close> from its creation on, so the reads at \<open>i - 1\<close> and the writes at \<open>i\<close> are
  in range.
\<close>

definition propagate_step :: "cv2 \<Rightarrow> string list \<Rightarrow> nat \<Rightarrow> prop_state \<Rightarrow> py_error + prop_state" where
  "propagate_step cv frame_paths i st =
     (if length frame_paths \<le> i then Inl IndexError
      else case imread_grayscale cv (frame_paths ! i) of
        None \<Rightarrow>
          Inr (st\<lparr>all_masks := map (\<lambda>(obj_id, ms). (obj_id, ms[i := ms ! (i - 1)])) (all_masks st)\<rparr>)
      | Some curr_gray \<Rightarrow>
          (case prev_gray st of
             None \<Rightarrow> Inl Cv2Error
           | Some prev \<Rightarrow>
               (case calcOpticalFlowFarneback cv prev curr_gray of
                  None \<Rightarrow> Inl Cv2Error
                | Some flow \<Rightarrow>
                    (let (h, w) = shape prev
                     in case remap_grids h w flow of
                          Inl e \<Rightarrow> Inl e
                        | Inr (map_x, map_y) \<Rightarrow>
                            (case warp_objects (warp_previous cv map_x map_y h w) i (all_masks st) of
                               Inl e \<Rightarrow> Inl e
                             | Inr masks' \<Rightarrow>
                                 Inr \<lparr>all_masks = masks', prev_gray = Some curr_gray,
                                      flow_steps = flow_steps st @ [i]\<rparr>)))))"

text \<open>
  \<open>initial_masks\<close> is the dictionary \<open>object_id \<rightarrow> mask\<close>. The assignment
  \<open>all_masks[obj_id][0] = ...\<close> raises \<open>IndexError\<close> on the empty list made for
  \<open>total_frames = 0\<close>, and so does \<open>frame_paths[0]\<close> on an empty path list.
\<close>

definition fallback_propagate ::
  "cv2 \<Rightarrow> string list \<Rightarrow> (int \<times> mask option) list \<Rightarrow> nat \<Rightarrow> py_error + prop_state" where
  "fallback_propagate cv frame_paths initial_masks total_frames =
     (if initial_masks \<noteq> [] \<and> total_frames = 0 then Inl IndexError
      else case frame_paths of
        [] \<Rightarrow> Inl IndexError
      | p0 # _ \<Rightarrow>
          run_steps (propagate_step cv frame_paths) [1..<total_frames]
            \<lparr>all_masks = map (\<lambda>(obj_id, m). (obj_id, (replicate total_frames None)[0 := m]))
                              initial_masks,
             prev_gray = imread_grayscale cv p0,
             flow_steps = []\<rparr>)"

text \<open>
  The value of \<open>prev_gray\<close> when the iteration for index \<open>n + 1\<close> begins: the grayscale
  read of the last readable frame among \<open>1, ..., n\<close>, and the read of frame 0 (which may be
  \<open>None\<close>) when there is none.
\<close>

fun last_good :: "cv2 \<Rightarrow> string list \<Rightarrow> nat \<Rightarrow> gray_image option" where
  "last_good cv frame_paths 0 = imread_grayscale cv (frame_paths ! 0)"
| "last_good cv frame_paths (Suc n) =
     (case imread_grayscale cv (frame_paths ! Suc n) of
        Some g \<Rightarrow> Some g
      | None \<Rightarrow> last_good cv frame_paths n)"

text \<open>An array all of whose entries are zero, and one with no entry above one half.\<close>

definition all_zero :: "'a::zero list list \<Rightarrow> bool" where
  "all_zero a = list_all (list_all (\<lambda>v. v = 0)) a"

definition below_threshold :: "float_image \<Rightarrow> bool" where
  "below_threshold a = list_all (list_all (\<lambda>v. v \<le> 1 / 2)) a"

text \<open>
  Three predicates used to state what the propagation loop maintains. \<open>step_rel\<close> relates
  the mask list of one object before and after iteration \<open>i\<close>. \<open>remap_keeps_zero\<close> says
  of the OpenCV at hand that remapping an all-zero image gives no value above one half
  (interpolation between zeros, with border value 0, gives zeros). \<open>step_ok\<close> collects
  what iteration \<open>j\<close> establishes for one object.
\<close>

definition step_rel :: "cv2 \<Rightarrow> string list \<Rightarrow> nat \<Rightarrow> prop_state \<Rightarrow> mask option list \<Rightarrow> mask option list \<Rightarrow> bool" where
  "step_rel cv fp i st ms ms' =
     (case imread_grayscale cv (fp ! i) of
        None \<Rightarrow> ms' = ms[i := ms ! (i - 1)]
      | Some g \<Rightarrow>
          (\<exists>prev map_x map_y m.
             prev_gray st = Some prev \<and>
             warp_previous cv map_x map_y (fst (shape prev)) (snd (shape prev)) (ms ! (i - 1)) = Inr m \<and>
             ms' = ms[i := m]))"

definition remap_keeps_zero :: "cv2 \<Rightarrow> bool" where
  "remap_keeps_zero cv =
     (\<forall>src map_x map_y out. all_zero src \<and> remap cv src map_x map_y = Some out \<longrightarrow> below_threshold out)"

definition step_ok :: "cv2 \<Rightarrow> string list \<Rightarrow> nat \<Rightarrow> mask option list \<Rightarrow> bool" where
  "step_ok cv fp j ms =
     ((imread_grayscale cv (fp ! j) = None \<longrightarrow> ms ! j = ms ! (j - 1)) \<and>
      (imread_grayscale cv (fp ! j) \<noteq> None \<and> ms ! (j - 1) = None \<longrightarrow>
         (\<exists>prev. last_good cv fp (j - 1) = Some prev \<and>
                 ms ! j = Some (zeros (fst (shape prev)) (snd (shape prev))))) \<and>
      (remap_keeps_zero cv \<longrightarrow>
         (\<forall>m. ms ! (j - 1) = Some m \<and> all_zero m \<longrightarrow> (\<exists>m'. ms ! j = Some m' \<and> all_zero m'))))"

subsection \<open>supertracery.py: run\_segment\_and\_track\<close>

text \<open>The dictionary appended for a frame whose mask is \<open>None\<close>.\<close>

definition default_frame :: "int \<Rightarrow> int \<Rightarrow> nat \<Rightarrow> frame_data" where
  "default_frame comp_width comp_height frame_idx =
     \<lparr>centroid = (of_int comp_width / 2, of_int comp_height / 2),
      bbox = (0, 0, comp_width, comp_height), polygon = [], area = 0, avg_luma = 0,
      motion_vector = (0, 0), frame_index = frame_idx,
      time = py_round (of_nat frame_idx / 30) 6, confidence = 0\<rparr>"

text \<open>\<open>analyze_frame\<close>'s dictionary with \<open>frame_index\<close>, \<open>time\<close> and \<open>confidence\<close> added.\<close>

definition analyzed_frame :: "int \<Rightarrow> int \<Rightarrow> nat \<Rightarrow> analysis \<Rightarrow> frame_data" where
  "analyzed_frame comp_width comp_height frame_idx a =
     \<lparr>centroid = centroid a, bbox = bbox a, polygon = polygon a, area = area a,
      avg_luma = avg_luma a, motion_vector = motion_vector a, frame_index = frame_idx,
      time = py_round (of_nat frame_idx / 30) 6,
      confidence = min 1 (of_nat (area a) / max 1 (of_int (comp_width * comp_height) * (1 / 1000)))\<rparr>"

text \<open>The state of \<open>for frame_idx in range(total_frames)\<close>: \<open>obj_data["frames"]\<close> and \<open>prev_centroid\<close>.\<close>

record track_state =
  frames :: "frame_data list"
  prev_centroid :: "vec option"

definition analyze_step ::
  "cv2 \<Rightarrow> string list \<Rightarrow> int \<Rightarrow> int \<Rightarrow> mask option list \<Rightarrow> nat \<Rightarrow> track_state
   \<Rightarrow> py_error + track_state" where
  "analyze_step cv frame_paths comp_width comp_height masks_list frame_idx st =
     (if length masks_list \<le> frame_idx then Inl IndexError
      else case masks_list ! frame_idx of
        None \<Rightarrow>
          Inr (st\<lparr>frames := frames st @ [default_frame comp_width comp_height frame_idx]\<rparr>)
      | Some m \<Rightarrow>
          (case analyze_frame cv (frame_paths ! frame_idx) m (prev_centroid st) of
             Inl e \<Rightarrow> Inl e
           | Inr a \<Rightarrow>
               Inr \<lparr>frames = frames st @ [analyzed_frame comp_width comp_height frame_idx a],
                    prev_centroid = Some (centroid a)\<rparr>))"

text \<open>Lines 83 to 114: the entries of one object before smoothing.\<close>

definition track_frames ::
  "cv2 \<Rightarrow> string list \<Rightarrow> int \<Rightarrow> int \<Rightarrow> mask option list \<Rightarrow> py_error + track_state" where
  "track_frames cv frame_paths comp_width comp_height masks_list =
     run_steps (analyze_step cv frame_paths comp_width comp_height masks_list)
       [0..<length frame_paths] \<lparr>frames = [], prev_centroid = None\<rparr>"

text \<open>Lines 83 to 117: the entries of one object, smoothed with \<open>window = 3\<close>.\<close>

definition track_object ::
  "cv2 \<Rightarrow> string list \<Rightarrow> int \<Rightarrow> int \<Rightarrow> mask option list \<Rightarrow> py_error + frame_data list" where
  "track_object cv frame_paths comp_width comp_height masks_list =
     (case track_frames cv frame_paths comp_width comp_height masks_list of
        Inl e \<Rightarrow> Inl e
      | Inr st \<Rightarrow> Inr (smooth_motion_vectors (frames st) 3))"

text \<open>The loop over the objects, already in the order of \<open>sorted(all_masks.keys())\<close>.\<close>

fun track_objects ::
  "cv2 \<Rightarrow> string list \<Rightarrow> int \<Rightarrow> int \<Rightarrow> (int \<times> mask option list) list
   \<Rightarrow> py_error + (int \<times> frame_data list) list" where
  "track_objects cv frame_paths comp_width comp_height [] = Inr []"
| "track_objects cv frame_paths comp_width comp_height ((obj_id, masks_list) # rest) =
     (case track_object cv frame_paths comp_width comp_height masks_list of
        Inl e \<Rightarrow> Inl e
      | Inr fs \<Rightarrow>
          (case track_objects cv frame_paths comp_width comp_height rest of
             Inl e \<Rightarrow> Inl e
           | Inr objs \<Rightarrow> Inr ((obj_id, fs) # objs)))"

text \<open>
  What a run ends with: one of the two \<open>ERROR:\<close> lines followed by \<open>return\<close>, or the
  \<open>objects\<close> list of the results document.
\<close>

datatype run_outcome =
  NoFramesFound
| NoMasksProduced
| Results "(int \<times> frame_data list) list"

text \<open>
  \<open>frame_paths\<close> is what \<open>load_frames\<close> returned, \<open>initial_masks\<close> what
  \<open>segment_single_frame\<close> returned, and \<open>propagate\<close> stands for \<open>propagate_masks\<close>, which is
  the learned model's propagation or \<open>_fallback_propagate\<close>.
\<close>

definition run_segment_and_track ::
  "cv2 \<Rightarrow> (string list \<Rightarrow> (int \<times> mask option) list \<Rightarrow> py_error + (int \<times> mask option list) list)
   \<Rightarrow> string list \<Rightarrow> (int \<times> mask option) list \<Rightarrow> int \<Rightarrow> int \<Rightarrow> py_error + run_outcome" where
  "run_segment_and_track cv propagate frame_paths initial_masks comp_width comp_height =
     (if frame_paths = [] then Inr NoFramesFound
      else if initial_masks = [] then Inr NoMasksProduced
      else case propagate frame_paths initial_masks of
        Inl e \<Rightarrow> Inl e
      | Inr masks \<Rightarrow>
          (case track_objects cv frame_paths comp_width comp_height (sort_key fst masks) of
             Inl e \<Rightarrow> Inl e
           | Inr objs \<Rightarrow> Inr (Results objs)))"

text \<open>
  The index of the last frame before \<open>n\<close> whose mask is present, if there is one: the
  frame whose centroid \<open>prev_centroid\<close> holds when the iteration for index \<open>n\<close> begins.
\<close>

fun last_present :: "mask option list \<Rightarrow> nat \<Rightarrow> nat option" where
  "last_present masks_list 0 = None"
| "last_present masks_list (Suc n) =
     (if masks_list ! n \<noteq> None then Some n else last_present masks_list n)"

text \<open>
  What the loop over the frames stores at index \<open>k\<close> of \<open>obj_data["frames"]\<close>: the
  default entry for an absent mask, and otherwise the analysis of the mask with the
  centroid of the last earlier analysed frame as \<open>prev_centroid\<close>.
\<close>

definition entry_ok ::
  "cv2 \<Rightarrow> string list \<Rightarrow> int \<Rightarrow> int \<Rightarrow> mask option list \<Rightarrow> frame_data list \<Rightarrow> nat \<Rightarrow> bool" where
  "entry_ok cv frame_paths comp_width comp_height masks_list fs k =
     (case masks_list ! k of
        None \<Rightarrow> fs ! k = default_frame comp_width comp_height k
      | Some m \<Rightarrow>
          (\<exists>a. analyze_frame cv (frame_paths ! k) m
                  (map_option (\<lambda>j. centroid (fs ! j)) (last_present masks_list k)) = Inr a \<and>
               fs ! k = analyzed_frame comp_width comp_height k a))"

subsection \<open>preview\_server.py: the query loop\<close>

text \<open>
  \<open>str.strip()\<close>: the whitespace characters of the ASCII range are tab, line feed,
  vertical tab, form feed, carriage return, the separators \<open>0x1C\<close> to \<open>0x1F\<close> and space.
  The whitespace beyond ASCII that \<open>str.strip()\<close> also removes (such as \<open>U+0085\<close> and
  \<open>U+00A0\<close>) is not modelled: lines are taken to be ASCII.
\<close>

definition is_space :: "char \<Rightarrow> bool" where
  "is_space c = ((of_char c :: nat) \<in> {9, 10, 11, 12, 13, 28, 29, 30, 31, 32})"

definition strip :: "string \<Rightarrow> string" where
  "strip s = rev (dropWhile is_space (rev (dropWhile is_space s)))"

text \<open>
  The body of the \<open>try\<close> block for one stripped line is \<open>answer\<close>: \<open>Inr out\<close> when it
  reaches \<open>print(json.dumps(result))\<close> with text \<open>out\<close>, \<open>Inl msg\<close> when an \<open>Exception\<close> with
  \<open>str(e) = msg\<close> is raised before that. \<open>json_error msg\<close> is
  \<open>json.dumps({"error": msg})\<close>. Writing to standard output is taken to succeed.
\<close>

record preview =
  answer :: "string \<Rightarrow> string + string"
  json_error :: "string \<Rightarrow> string"

definition respond :: "preview \<Rightarrow> string \<Rightarrow> string" where
  "respond pv line = (case answer pv line of Inr out \<Rightarrow> out | Inl msg \<Rightarrow> json_error pv msg)"

text \<open>
  \<open>for line in sys.stdin\<close>: the argument is the list of lines read until the channel is
  closed, the result the list of lines printed by the loop.
\<close>

fun query_loop :: "preview \<Rightarrow> string list \<Rightarrow> string list" where
  "query_loop pv [] = []"
| "query_loop pv (raw # rest) =
     (let line = strip raw
      in if line = [] then query_loop pv rest
         else if line = ''QUIT'' then []
         else respond pv line # query_loop pv rest)"

subsection \<open>A concrete OpenCV for the examples\<close>

text \<open>
  The examples below run the model on small inputs and need values for the OpenCV calls.
  The functions here return what OpenCV returns on the inputs the examples use:
  \<^item> \<open>contourArea\<close> is the shoelace formula;
  \<^item> \<open>findContours\<close> returns no contour for an all-zero mask and otherwise the corners of
    the bounding rectangle of the nonzero pixels, which is the outer contour under
    \<open>CHAIN_APPROX_SIMPLE\<close> when the nonzero pixels fill that rectangle;
  \<^item> \<open>approxPolyDP\<close> on a closed contour whose vertices all lie within \<open>epsilon\<close> of one
    another writes the start point alone; other contours are returned as they are (no
    example has one);
  \<^item> the grayscale value of a pixel is the rounded weighted sum of its channels, which
    for a pixel with three equal channels is their common value (the frames of the
    examples are uniformly gray);
  \<^item> the frames are static: the flow field is zero and \<open>remap\<close> through the identity
    grid returns its source.
\<close>

definition shoelace_area :: "contour \<Rightarrow> rat" where
  "shoelace_area c =
     (case c of
        [] \<Rightarrow> 0
      | p # _ \<Rightarrow>
          \<bar>of_int (sum_list (map2 (\<lambda>(x1, y1) (x2, y2). x1 * y2 - x2 * y1) c (tl c @ [p])))\<bar> / 2)"

definition rectangle_contours :: "mask \<Rightarrow> contour list" where
  "rectangle_contours msk =
     (case findNonZero msk of
        None \<Rightarrow> []
      | Some coords \<Rightarrow>
          (let (x, y, bw, bh) = boundingRect coords;
               x2 = int (x + bw) - 1; y2 = int (y + bh) - 1
           in [remdups [(int x, int y), (int x, y2), (x2, y2), (x2, int y)]]))"

definition collapse_small_contour :: "contour \<Rightarrow> rat \<Rightarrow> contour" where
  "collapse_small_contour c epsilon =
     (if list_all (\<lambda>(x1, y1). list_all (\<lambda>(x2, y2).
            of_int ((x1 - x2) * (x1 - x2) + (y1 - y2) * (y1 - y2)) \<le> epsilon * epsilon) c) c
      then take 1 c else c)"

definition ex_image :: bgr_image where
  "ex_image = [replicate 5 (20, 20, 20)]"

definition ex_cv2 :: cv2 where
  "ex_cv2 =
     \<lparr>imread = (\<lambda>p. if List.member [''f0'', ''f1'', ''f2''] p then Some ex_image else None),
      imread_grayscale =
        (\<lambda>p. if List.member [''f0'', ''f1'', ''f2''] p then Some [replicate 5 20] else None),
      cvtColor_BGR2GRAY =
        map (map (\<lambda>(b, g, r). if b = g \<and> g = r then g
                               else (299 * r + 587 * g + 114 * b + 500) div 1000)),
      findContours = rectangle_contours,
      contourArea = shoelace_area,
      approxPolyDP = collapse_small_contour,
      calcOpticalFlowFarneback =
        (\<lambda>prev curr. if shape prev = shape curr
                      then Some (map (map (\<lambda>_. (0, 0))) prev) else None),
      remap = (\<lambda>src map_x map_y. if shape map_x = shape src \<and> shape map_y = shape src
                                  then Some src else None)\<rparr>"

text \<open>A preview session whose predictor answers one query and fails on everything else.\<close>

definition ex_preview :: preview where
  "ex_preview =
     \<lparr>answer = (\<lambda>line. if line = ''{\"x\": 1, \"y\": 2}''
                        then Inr ''{\"bbox\": [0, 0, 2, 2], \"polygon\": [[0, 0]], \"score\": 0.9, \"centroid\": [0.5, 0.5]}''
                        else Inl ''Expecting value''),
      json_error = (\<lambda>msg. ''{\"error\": \"'' @ msg @ ''\"}'')\<rparr>"

text \<open>A mask of two by two pixels, all set.\<close>

definition square_mask :: mask where
  "square_mask = [[1, 1], [1, 1]]"

text \<open>
  A propagation over three frames of which the second cannot be read, for two objects,
  the second without an initial mask; and the state it ends in.
\<close>

definition ex_paths :: "string list" where
  "ex_paths = [''f0'', ''bad'', ''f1'']"

definition ex_initial_masks :: "(int \<times> mask option) list" where
  "ex_initial_masks = [(0, Some [[0, 0, 1, 0, 0]]), (1, None)]"

definition ex_propagated :: prop_state where
  "ex_propagated =
     \<lparr>all_masks = [(0, [Some [[0, 0, 1, 0, 0]], Some [[0, 0, 1, 0, 0]], Some [[0, 0, 1, 0, 0]]]),
                   (1, [None, None, Some [[0, 0, 0, 0, 0]]])],
      prev_gray = Some [[20, 20, 20, 20, 20]], flow_steps = [2]\<rparr>"

definition ex_lost_masks :: "mask option list" where
  "ex_lost_masks = [None, None, Some [[0, 0, 0, 0, 0]]]"

text \<open>
  A run over three frames for one object whose mask is a single pixel, at column 0 in
  frame 0 and at column 4 in frame 1, and is absent in frame 2, on a canvas 5 wide and 1
  high; and the same masks with the absent one in the middle.
\<close>

definition ex_frame_paths :: "string list" where
  "ex_frame_paths = [''f0'', ''f1'', ''f2'']"

definition ex_masks :: "(int \<times> mask option list) list" where
  "ex_masks = [(0, [Some [[1, 0, 0, 0, 0]], Some [[0, 0, 0, 0, 1]], None])]"

text \<open>
  The propagation of the learned model as far as the run sees it: it yields masks for
  frames 0 and 1 and none for frame 2, whose entry stays \<open>None\<close>.
\<close>

definition ex_seed_masks :: "(int \<times> mask option) list" where
  "ex_seed_masks = [(0, Some [[1, 0, 0, 0, 0]])]"

definition ex_propagate ::
  "string list \<Rightarrow> (int \<times> mask option) list \<Rightarrow> py_error + (int \<times> mask option list) list" where
  "ex_propagate paths initial = Inr ex_masks"

definition ex_track :: "frame_data list" where
  "ex_track =
     [\<lparr>centroid = (0, 0), bbox = (0, 0, 1, 1), polygon = [(0, 0)], area = 1,
       avg_luma = 49 / 625, motion_vector = (2, 0), frame_index = 0, time = 0,
       confidence = 1\<rparr>,
      \<lparr>centroid = (4, 0), bbox = (4, 0, 5, 1), polygon = [(4, 0)], area = 1,
       avg_luma = 49 / 625, motion_vector = (2, 0), frame_index = 1,
       time = 33333 / 1000000, confidence = 1\<rparr>,
      \<lparr>centroid = (5 / 2, 1 / 2), bbox = (0, 0, 5, 1), polygon = [], area = 0,
       avg_luma = 0, motion_vector = (1, 0), frame_index = 2, time = 66667 / 1000000,
       confidence = 0\<rparr>]"

definition ex_gap_masks :: "mask option list" where
  "ex_gap_masks = [Some [[1, 0, 0, 0, 0]], None, Some [[0, 0, 0, 0, 1]]]"

definition ex_gap_state :: track_state where
  "ex_gap_state =
     \<lparr>frames =
        [\<lparr>centroid = (0, 0), bbox = (0, 0, 1, 1), polygon = [(0, 0)], area = 1,
          avg_luma = 49 / 625, motion_vector = (0, 0), frame_index = 0, time = 0,
          confidence = 1\<rparr>,
         \<lparr>centroid = (5 / 2, 1 / 2), bbox = (0, 0, 5, 1), polygon = [], area = 0,
          avg_luma = 0, motion_vector = (0, 0), frame_index = 1, time = 33333 / 1000000,
          confidence = 0\<rparr>,
         \<lparr>centroid = (4, 0), bbox = (4, 0, 5, 1), polygon = [(4, 0)], area = 1,
          avg_luma = 49 / 625, motion_vector = (4, 0), frame_index = 2,
          time = 66667 / 1000000, confidence = 1\<rparr>],
      prev_centroid = Some (4, 0)\<rparr>"

section \<open>Properties\<close>

subsection \<open>The temporal smoother\<close>

lemma length_smooth_step: "length (smooth_step n half i fs) = length fs"
  by (simp add: smooth_step_def Let_def split: prod.splits)

lemma length_fold_smooth_step: "length (fold (smooth_step n half) is fs) = length fs"
  by (induction "is" arbitrary: fs) (simp_all add: length_smooth_step)

lemma non_motion_fields_update:
  "non_motion_fields (f\<lparr>motion_vector := v\<rparr>) = non_motion_fields f"
  by (simp add: non_motion_fields_def)

lemma non_motion_fields_smooth_step:
  "map non_motion_fields (smooth_step n half i fs) = map non_motion_fields fs"
proof (cases "i < length fs")
  case True
  then show ?thesis
    by (simp add: smooth_step_def Let_def map_update non_motion_fields_update
        list_update_same_conv split: prod.splits)
next
  case False
  then show ?thesis
    by (simp add: smooth_step_def Let_def list_update_beyond split: prod.splits)
qed

lemma non_motion_fields_fold_smooth_step:
  "map non_motion_fields (fold (smooth_step n half) is fs) = map non_motion_fields fs"
  by (induction "is" arbitrary: fs) (simp_all add: non_motion_fields_smooth_step)

lemma length_smooth_motion_vectors: "length (smooth_motion_vectors fs window) = length fs"
  by (simp add: smooth_motion_vectors_def Let_def length_fold_smooth_step)

lemma non_motion_fields_smooth_motion_vectors:
  "map non_motion_fields (smooth_motion_vectors fs window) = map non_motion_fields fs"
  by (simp add: smooth_motion_vectors_def Let_def non_motion_fields_fold_smooth_step)

lemma smooth_motion_vectors_short:
  "int (length fs) < window \<Longrightarrow> smooth_motion_vectors fs window = fs"
  by (simp add: smooth_motion_vectors_def)

text \<open>
  Claim C1, evaluated on the scenario of the specification: the track with motion
  vectors \<open>(0,0), (2,0), (4,0), (2,0), (0,0)\<close> and \<open>window = 3\<close>. The specification's
  smoother gives \<open>(2.67, 0)\<close> at index 2, the average of the original vectors at indices
  1 to 3. The program gives \<open>(2.78, 0)\<close>: when it reaches index 2 it has already
  overwritten index 1 with \<open>2.33\<close>, and it averages \<open>2.33\<close>, \<open>4\<close> and \<open>2\<close>.
\<close>

theorem smooth_motion_vectors_scenario:
  "motion_vector (smooth_motion_vectors scenario_track 3 ! 2) = (139 / 50, 0) \<and>
   spec_window_average scenario_track 3 2 = (267 / 100, 0) \<and>
   3 \<le> int (length scenario_track)"
  by code_simp

text \<open>
  Claim C8: \<open>smooth_motion_vectors\<close> returns a list of the length of its input; when the
  input is shorter than the window the output is the input; and in every case each entry
  keeps every field other than \<open>motion_vector\<close>.
\<close>

theorem smooth_motion_vectors_frame:
  "length (smooth_motion_vectors fs window) = length fs \<and>
   (int (length fs) < window \<longrightarrow> smooth_motion_vectors fs window = fs) \<and>
   map non_motion_fields (smooth_motion_vectors fs window) = map non_motion_fields fs"
  by (simp add: length_smooth_motion_vectors non_motion_fields_smooth_motion_vectors
      smooth_motion_vectors_short)

theorem smooth_motion_vectors_frame_witness:
  "length (smooth_motion_vectors scenario_track 7) = length scenario_track \<and>
   int (length scenario_track) < 7 \<and>
   smooth_motion_vectors scenario_track 7 = scenario_track \<and>
   map non_motion_fields (smooth_motion_vectors scenario_track 3) =
     map non_motion_fields scenario_track"
proof -
  have small: "int (length scenario_track) < 7"
    by (simp add: scenario_track_def)
  show ?thesis
    using smooth_motion_vectors_frame [of scenario_track 7]
      smooth_motion_vectors_frame [of scenario_track 3] small
    by simp
qed

subsection \<open>Polygon simplification\<close>

lemma simplify_loop_first_fit:
  "0 < n \<Longrightarrow>
   \<exists>k<n. simplify_loop cv c K n e a = approxPolyDP cv c (e * (3 / 2) ^ k) \<and>
         (\<forall>j<k. K < int (length (approxPolyDP cv c (e * (3 / 2) ^ j)))) \<and>
         (int (length (approxPolyDP cv c (e * (3 / 2) ^ k))) \<le> K \<or> k = n - 1)"
proof (induction n arbitrary: e a)
  case 0
  then show ?case by simp
next
  case (Suc n)
  let ?a = "approxPolyDP cv c e"
  show ?case
  proof (cases "int (length ?a) \<le> K")
    case True
    then have "simplify_loop cv c K (Suc n) e a = approxPolyDP cv c (e * (3 / 2) ^ 0)"
      by simp
    with True show ?thesis
      by (intro exI [of _ 0]) simp
  next
    case False
    show ?thesis
    proof (cases n)
      case 0
      with False have "simplify_loop cv c K (Suc n) e a = approxPolyDP cv c (e * (3 / 2) ^ 0)"
        by simp
      with 0 show ?thesis
        by (intro exI [of _ 0]) simp
    next
      case (Suc m)
      then have "0 < n" by simp
      from Suc.IH [OF this, of "e * (3 / 2)" ?a]
      obtain k where k: "k < n"
        "simplify_loop cv c K n (e * (3 / 2)) ?a = approxPolyDP cv c (e * (3 / 2) * (3 / 2) ^ k)"
        "\<forall>j<k. K < int (length (approxPolyDP cv c (e * (3 / 2) * (3 / 2) ^ j)))"
        "int (length (approxPolyDP cv c (e * (3 / 2) * (3 / 2) ^ k))) \<le> K \<or> k = n - 1"
        by blast
      have shift: "e * (3 / 2) * (3 / 2) ^ j = e * (3 / 2) ^ Suc j" for j
        by simp
      have step: "simplify_loop cv c K (Suc n) e a = simplify_loop cv c K n (e * (3 / 2)) ?a"
        using False by (simp add: Let_def)
      have res: "simplify_loop cv c K (Suc n) e a = approxPolyDP cv c (e * (3 / 2) ^ Suc k)"
        by (simp only: step k(2) shift)
      have before: "\<forall>j<Suc k. K < int (length (approxPolyDP cv c (e * (3 / 2) ^ j)))"
      proof (intro allI impI)
        fix j assume "j < Suc k"
        show "K < int (length (approxPolyDP cv c (e * (3 / 2) ^ j)))"
        proof (cases j)
          case 0
          with False show ?thesis by simp
        next
          case (Suc i)
          with \<open>j < Suc k\<close> have "i < k" by simp
          with k(3) have "K < int (length (approxPolyDP cv c (e * (3 / 2) * (3 / 2) ^ i)))"
            by blast
          with Suc show ?thesis by (simp only: shift)
        qed
      qed
      have last: "int (length (approxPolyDP cv c (e * (3 / 2) ^ Suc k))) \<le> K \<or> Suc k = Suc n - 1"
        using k(4) \<open>0 < n\<close> by (auto simp only: shift)
      from k(1) have "Suc k < Suc n" by simp
      with res before last show ?thesis
        by blast
    qed
  qed
qed

lemma largest_contour_fold:
  "fold (\<lambda>x best. if contourArea cv best < contourArea cv x then x else best) cs c \<in> set (c # cs) \<and>
   (\<forall>x\<in>set (c # cs). contourArea cv x \<le>
      contourArea cv (fold (\<lambda>x best. if contourArea cv best < contourArea cv x then x else best) cs c))"
proof (induction cs arbitrary: c)
  case Nil
  then show ?case by simp
next
  case (Cons d cs)
  let ?step = "\<lambda>x best. if contourArea cv best < contourArea cv x then x else best"
  from Cons.IH [of "?step d c"]
  have mem: "fold ?step cs (?step d c) \<in> set (?step d c # cs)"
    and ub: "\<forall>x\<in>set (?step d c # cs). contourArea cv x \<le> contourArea cv (fold ?step cs (?step d c))"
    by blast+
  have "contourArea cv c \<le> contourArea cv (?step d c)" "contourArea cv d \<le> contourArea cv (?step d c)"
    by auto
  moreover from ub have "contourArea cv (?step d c) \<le> contourArea cv (fold ?step cs (?step d c))"
    by simp
  ultimately have "contourArea cv c \<le> contourArea cv (fold ?step cs (?step d c))"
    "contourArea cv d \<le> contourArea cv (fold ?step cs (?step d c))"
    by linarith+
  with mem ub show ?case
    by (auto split: if_splits)
qed

lemma largest_contour_max:
  "largest_contour cv c cs \<in> set (c # cs) \<and>
   (\<forall>x\<in>set (c # cs). contourArea cv x \<le> contourArea cv (largest_contour cv c cs))"
  unfolding largest_contour_def by (rule largest_contour_fold)

text \<open>
  Claim C4: when \<open>findContours\<close> returns at least one contour, \<open>_mask_to_polygon\<close> takes
  the first contour of largest area and approximates it with \<open>epsilon = 2 * 1.5 ^ k\<close> for
  \<open>k = 0, 1, ...\<close>, at most 20 times. The value returned is the approximation of the first
  \<open>k\<close> whose vertex count is at most \<open>max_points\<close>; when none of the 20 is, it is the one
  for \<open>k = 19\<close>, the largest epsilon, whatever its vertex count. (An approximation without
  any vertex, which OpenCV does not produce from a contour, would raise \<open>IndexError\<close>.)
\<close>

theorem mask_to_polygon_simplifies:
  assumes "findContours cv msk = c # cs"
  shows "largest_contour cv c cs \<in> set (findContours cv msk) \<and>
         (\<forall>x\<in>set (findContours cv msk).
            contourArea cv x \<le> contourArea cv (largest_contour cv c cs)) \<and>
         (\<exists>k<20.
            mask_to_polygon cv msk K =
              (if approxPolyDP cv (largest_contour cv c cs) (2 * (3 / 2) ^ k) = []
               then Inl IndexError
               else Inr (approxPolyDP cv (largest_contour cv c cs) (2 * (3 / 2) ^ k))) \<and>
            (\<forall>j<k. K < int (length (approxPolyDP cv (largest_contour cv c cs) (2 * (3 / 2) ^ j)))) \<and>
            (int (length (approxPolyDP cv (largest_contour cv c cs) (2 * (3 / 2) ^ k))) \<le> K
             \<or> k = 19))"
proof -
  have "(0::nat) < 20" by simp
  from simplify_loop_first_fit [OF this, of cv "largest_contour cv c cs" K 2 "[]"]
  obtain k where k: "k < 20"
    "simplify_loop cv (largest_contour cv c cs) K 20 2 [] =
       approxPolyDP cv (largest_contour cv c cs) (2 * (3 / 2) ^ k)"
    "\<forall>j<k. K < int (length (approxPolyDP cv (largest_contour cv c cs) (2 * (3 / 2) ^ j)))"
    "int (length (approxPolyDP cv (largest_contour cv c cs) (2 * (3 / 2) ^ k))) \<le> K \<or> k = 20 - 1"
    by blast
  have "mask_to_polygon cv msk K =
          (if approxPolyDP cv (largest_contour cv c cs) (2 * (3 / 2) ^ k) = []
           then Inl IndexError
           else Inr (approxPolyDP cv (largest_contour cv c cs) (2 * (3 / 2) ^ k)))"
    using assms k(2) by (simp add: mask_to_polygon_def Let_def)
  with k(1,3,4) have "\<exists>k<20.
            mask_to_polygon cv msk K =
              (if approxPolyDP cv (largest_contour cv c cs) (2 * (3 / 2) ^ k) = []
               then Inl IndexError
               else Inr (approxPolyDP cv (largest_contour cv c cs) (2 * (3 / 2) ^ k))) \<and>
            (\<forall>j<k. K < int (length (approxPolyDP cv (largest_contour cv c cs) (2 * (3 / 2) ^ j)))) \<and>
            (int (length (approxPolyDP cv (largest_contour cv c cs) (2 * (3 / 2) ^ k))) \<le> K
             \<or> k = 19)"
    by (intro exI [of _ k]) simp
  with largest_contour_max [of cv c cs] assms show ?thesis
    by simp
qed

theorem mask_to_polygon_simplifies_witness:
  "findContours ex_cv2 square_mask = [(0, 0), (0, 1), (1, 1), (1, 0)] # [] \<and>
   (\<exists>k<20.
      mask_to_polygon ex_cv2 square_mask 0 =
        (if approxPolyDP ex_cv2 (largest_contour ex_cv2 [(0, 0), (0, 1), (1, 1), (1, 0)] [])
              (2 * (3 / 2) ^ k) = []
         then Inl IndexError
         else Inr (approxPolyDP ex_cv2 (largest_contour ex_cv2 [(0, 0), (0, 1), (1, 1), (1, 0)] [])
                     (2 * (3 / 2) ^ k))) \<and>
      (\<forall>j<k. 0 < int (length (approxPolyDP ex_cv2
                  (largest_contour ex_cv2 [(0, 0), (0, 1), (1, 1), (1, 0)] []) (2 * (3 / 2) ^ j)))) \<and>
      (int (length (approxPolyDP ex_cv2
            (largest_contour ex_cv2 [(0, 0), (0, 1), (1, 1), (1, 0)] []) (2 * (3 / 2) ^ k))) \<le> 0
       \<or> k = 19)) \<and>
   mask_to_polygon ex_cv2 square_mask 0 = Inr [(0, 0)]"
proof -
  have h: "findContours ex_cv2 square_mask = [(0, 0), (0, 1), (1, 1), (1, 0)] # []"
    by code_simp
  have r: "mask_to_polygon ex_cv2 square_mask 0 = Inr [(0, 0)]"
    by code_simp
  from mask_to_polygon_simplifies [OF h, of 0] h r show ?thesis
    by blast
qed

text \<open>
  Claim C5 does not hold as stated: a contour that already has at most \<open>max_points\<close>
  vertices is still approximated with \<open>epsilon = 2.0\<close>. The outer contour of the two by
  two square has four vertices, all within distance 2 of one another, and with
  \<open>max_points = 64\<close> the polygon returned is the single point \<open>(0, 0)\<close>.
\<close>

theorem mask_to_polygon_small_contour_counterexample:
  "findContours ex_cv2 square_mask = [[(0, 0), (0, 1), (1, 1), (1, 0)]] \<and>
   int (length [(0, 0), (0, 1), (1, 1), (1, 0 :: int)]) \<le> 64 \<and>
   mask_to_polygon ex_cv2 square_mask 64 = Inr [(0, 0)]"
  by code_simp

text \<open>
  Claim C5 as amended: for a mask whose largest outer contour has at most \<open>max_points\<close>
  vertices, \<open>_mask_to_polygon\<close> returns the approximation of that contour with
  \<open>epsilon = 2.0\<close>, the first of the loop (\<open>approxPolyDP\<close> selects vertices of the contour,
  so it returns no more vertices than it is given).
\<close>

theorem mask_to_polygon_small_contour:
  assumes "findContours cv msk = c # cs"
    and "int (length (largest_contour cv c cs)) \<le> K"
    and "length (approxPolyDP cv (largest_contour cv c cs) 2) \<le> length (largest_contour cv c cs)"
  shows "mask_to_polygon cv msk K =
           (if approxPolyDP cv (largest_contour cv c cs) 2 = [] then Inl IndexError
            else Inr (approxPolyDP cv (largest_contour cv c cs) 2))"
proof -
  from assms(2,3) have "int (length (approxPolyDP cv (largest_contour cv c cs) 2)) \<le> K"
    by linarith
  then have "simplify_loop cv (largest_contour cv c cs) K 20 2 [] =
      approxPolyDP cv (largest_contour cv c cs) 2"
    by (simp add: numeral_eq_Suc Let_def)
  with assms(1) show ?thesis
    by (simp add: mask_to_polygon_def Let_def)
qed

theorem mask_to_polygon_small_contour_witness:
  "findContours ex_cv2 square_mask = [(0, 0), (0, 1), (1, 1), (1, 0)] # [] \<and>
   int (length (largest_contour ex_cv2 [(0, 0), (0, 1), (1, 1), (1, 0)] [])) \<le> 64 \<and>
   length (approxPolyDP ex_cv2 (largest_contour ex_cv2 [(0, 0), (0, 1), (1, 1), (1, 0)] []) 2)
     \<le> length (largest_contour ex_cv2 [(0, 0), (0, 1), (1, 1), (1, 0)] []) \<and>
   mask_to_polygon ex_cv2 square_mask 64 =
     (if approxPolyDP ex_cv2 (largest_contour ex_cv2 [(0, 0), (0, 1), (1, 1), (1, 0)] []) 2 = []
      then Inl IndexError
      else Inr (approxPolyDP ex_cv2 (largest_contour ex_cv2 [(0, 0), (0, 1), (1, 1), (1, 0)] []) 2))"
proof -
  have h1: "findContours ex_cv2 square_mask = [(0, 0), (0, 1), (1, 1), (1, 0)] # []"
    by code_simp
  have h2: "int (length (largest_contour ex_cv2 [(0, 0), (0, 1), (1, 1), (1, 0)] [])) \<le> 64"
    by code_simp
  have h3: "length (approxPolyDP ex_cv2 (largest_contour ex_cv2 [(0, 0), (0, 1), (1, 1), (1, 0)] []) 2)
     \<le> length (largest_contour ex_cv2 [(0, 0), (0, 1), (1, 1), (1, 0)] [])"
    by code_simp
  from mask_to_polygon_small_contour [OF h1 h2 h3] h1 h2 h3 show ?thesis
    by blast
qed

subsection \<open>Analysis of an all-zero mask\<close>

lemma round_half_even_of_int: "round_half_even (of_int n) = n"
  by (simp add: round_half_even_def)

lemma py_round_half: "py_round (of_nat n / 2) 2 = of_nat n / 2"
proof -
  have "(of_nat n / 2 :: rat) * 10 ^ 2 = of_int (50 * int n)"
    by simp
  then have "round_half_even ((of_nat n / 2 :: rat) * 10 ^ 2) = 50 * int n"
    by (simp only: round_half_even_of_int)
  then show ?thesis
    by (simp add: py_round_def)
qed

lemma pixels_value: "(x, y, v) \<in> set (pixels a) \<Longrightarrow> \<exists>row\<in>set a. v \<in> set row"
proof -
  assume "(x, y, v) \<in> set (pixels a)"
  then have "y < length a" "x < length (a ! y)" "v = a ! y ! x"
    by (auto simp: pixels_def in_set_enumerate_eq)
  then have "a ! y \<in> set a" "v \<in> set (a ! y)"
    by simp_all
  then show ?thesis
    by blast
qed

lemma sum_list_all_zero: "(\<And>x. x \<in> set xs \<Longrightarrow> f x = 0) \<Longrightarrow> sum_list (map f xs) = (0 :: rat)"
  by (induction xs) simp_all

lemma pixels_zeros: "p \<in> set (pixels (zeros h w)) \<Longrightarrow> snd (snd p) = 0"
proof -
  assume "p \<in> set (pixels (zeros h w))"
  then have "(fst p, fst (snd p), snd (snd p)) \<in> set (pixels (zeros h w))"
    by simp
  from pixels_value [OF this] show ?thesis
    by (auto simp: zeros_def)
qed

lemma nonzero_pixels_zeros: "filter (\<lambda>(x, y, v). 0 < v) (pixels (zeros h w)) = []"
  by (auto simp: filter_empty_conv dest: pixels_zeros)

lemma moments_zeros: "moments (zeros h w) = (0, 0, 0)"
proof -
  have "sum_list (map f (pixels (zeros h w))) = (0 :: rat)"
    if "\<And>p. snd (snd p) = 0 \<Longrightarrow> f p = 0" for f
    by (rule sum_list_all_zero) (auto dest: pixels_zeros intro: that)
  then show ?thesis
    by (simp add: moments_def case_prod_beta)
qed

lemma findNonZero_zeros: "findNonZero (zeros h w) = None"
  by (simp add: findNonZero_def nonzero_pixels_zeros)

lemma shape_zeros: "0 < h \<Longrightarrow> shape (zeros h w) = (h, w)"
  by (cases h) (simp_all add: shape_def zeros_def)

lemma masked_pixels_zeros:
  "shape gray = (h, w) \<Longrightarrow> 0 < h \<Longrightarrow> masked_pixels gray (zeros h w) = Inr []"
  by (simp add: masked_pixels_def shape_zeros nonzero_pixels_zeros)

text \<open>
  Claim C6: for a readable frame of \<open>H\<close> rows and \<open>W\<close> columns (\<open>H\<close> at least 1) and the
  all-zero mask of the same size, \<open>analyze_frame\<close> returns a result with centroid
  \<open>(W/2, H/2)\<close>, bbox \<open>(0, 0, W, H)\<close>, area 0 and avg\_luma 0; the polygon is empty.
  OpenCV finds no contour in an all-zero mask.
\<close>

theorem analyze_frame_all_zero:
  assumes "imread cv image_path = Some img"
    and "shape (cvtColor_BGR2GRAY cv img) = (H, W)"
    and "0 < H"
    and "findContours cv (zeros H W) = []"
  shows "\<exists>a. analyze_frame cv image_path (zeros H W) prev = Inr a \<and>
             centroid a = (of_nat W / 2, of_nat H / 2) \<and>
             bbox a = (0, 0, int W, int H) \<and>
             polygon a = [] \<and> area a = 0 \<and> avg_luma a = 0"
proof -
  have poly: "mask_to_polygon cv (zeros H W) 64 = Inr []"
    using assms(4) by (simp add: mask_to_polygon_def)
  have px: "masked_pixels (cvtColor_BGR2GRAY cv img) (zeros H W) = Inr []"
    using assms(2,3) by (rule masked_pixels_zeros)
  show ?thesis
    using assms(1,3) poly px
    by (simp add: analyze_frame_def Let_def shape_zeros moments_zeros findNonZero_zeros
        nonzero_pixels_zeros py_round_half)
qed

theorem analyze_frame_all_zero_witness:
  "imread ex_cv2 ''f0'' = Some ex_image \<and>
   shape (cvtColor_BGR2GRAY ex_cv2 ex_image) = (1, 5) \<and> (0 :: nat) < 1 \<and>
   findContours ex_cv2 (zeros 1 5) = [] \<and>
   (\<exists>a. analyze_frame ex_cv2 ''f0'' (zeros 1 5) None = Inr a \<and>
        centroid a = (of_nat 5 / 2, of_nat 1 / 2) \<and>
        bbox a = (0, 0, int 5, int 1) \<and>
        polygon a = [] \<and> area a = 0 \<and> avg_luma a = 0)"
proof -
  have h1: "imread ex_cv2 ''f0'' = Some ex_image"
    by (simp add: ex_cv2_def)
  have h2: "shape (cvtColor_BGR2GRAY ex_cv2 ex_image) = (1, 5)"
    by (simp add: ex_cv2_def ex_image_def shape_def)
  have h3: "(0 :: nat) < 1"
    by simp
  have h4: "findContours ex_cv2 (zeros 1 5) = []"
    by (simp add: ex_cv2_def rectangle_contours_def findNonZero_zeros)
  note r = analyze_frame_all_zero [OF h1 h2 h3 h4, of None]
  show ?thesis
    by (intro conjI h1 h2 h3 h4 r)
qed

subsection \<open>Fallback propagation\<close>

lemma run_steps_append:
  "run_steps body (xs @ ys) s =
     (case run_steps body xs s of Inl e \<Rightarrow> Inl e | Inr s' \<Rightarrow> run_steps body ys s')"
  by (induction xs arbitrary: s) (simp_all split: sum.splits)

lemma run_steps_snoc:
  "run_steps body (xs @ [i]) s = Inr s' \<longleftrightarrow>
     (\<exists>s1. run_steps body xs s = Inr s1 \<and> body i s1 = Inr s')"
  by (simp add: run_steps_append split: sum.splits)

lemma run_steps_upt_Suc:
  "a \<le> b \<Longrightarrow> run_steps body [a..<Suc b] s = Inr s' \<longleftrightarrow>
     (\<exists>s1. run_steps body [a..<b] s = Inr s1 \<and> body b s1 = Inr s')"
  by (simp add: run_steps_snoc)

lemma warp_objects_rel:
  "warp_objects f i am = Inr am' \<Longrightarrow>
   list_all2 (\<lambda>x y. fst y = fst x \<and> (\<exists>m. f (snd x ! (i - 1)) = Inr m \<and> snd y = (snd x)[i := m])) am am'"
proof (induction f i am arbitrary: am' rule: warp_objects.induct)
  case (1 f i)
  then show ?case by simp
next
  case (2 f i obj_id ms rest)
  then show ?case
    by (auto split: sum.splits)
qed

lemma propagate_step_rel:
  assumes "propagate_step cv fp i st = Inr st'"
  shows "list_all2 (\<lambda>x y. fst y = fst x \<and> step_rel cv fp i st (snd x) (snd y)) (all_masks st) (all_masks st')"
proof (cases "imread_grayscale cv (fp ! i)")
  case None
  with assms have "all_masks st' = map (\<lambda>(obj_id, ms). (obj_id, ms[i := ms ! (i - 1)])) (all_masks st)"
    by (auto simp: propagate_step_def split: if_splits)
  with None show ?thesis
    by (simp add: list_all2_map2 step_rel_def list_all2_refl case_prod_beta list.rel_refl)
next
  case (Some g)
  with assms obtain prev flow map_x map_y where
    p: "prev_gray st = Some prev"
    and w: "warp_objects (warp_previous cv map_x map_y (fst (shape prev)) (snd (shape prev))) i (all_masks st)
          = Inr (all_masks st')"
    by (auto simp: propagate_step_def Let_def case_prod_beta split: if_splits option.splits sum.splits)
  from warp_objects_rel [OF w] show ?thesis
    by (rule list_all2_mono) (use Some p in \<open>auto simp: step_rel_def\<close>)
qed

lemma propagate_step_prev_gray:
  assumes "propagate_step cv fp i st = Inr st'"
  shows "prev_gray st' = (case imread_grayscale cv (fp ! i) of Some g \<Rightarrow> Some g | None \<Rightarrow> prev_gray st)"
  using assms
  by (auto simp: propagate_step_def Let_def case_prod_beta split: if_splits option.splits sum.splits)

lemma propagate_step_flow_steps:
  assumes "propagate_step cv fp i st = Inr st'"
  shows "flow_steps st' = flow_steps st @ (if imread_grayscale cv (fp ! i) = None then [] else [i])"
  using assms
  by (auto simp: propagate_step_def Let_def case_prod_beta split: if_splits option.splits sum.splits)

lemma all_zero_zeros: "all_zero (zeros h w)"
  by (simp add: all_zero_def zeros_def list_all_iff)

lemma all_zero_astype_float32: "all_zero m \<Longrightarrow> all_zero (astype_float32 m)"
  by (auto simp: all_zero_def astype_float32_def list_all_iff)

lemma all_zero_threshold: "below_threshold a \<Longrightarrow> all_zero (threshold a)"
  by (fastforce simp: all_zero_def below_threshold_def threshold_def list_all_iff)

lemma warp_previous_None:
  "warp_previous cv map_x map_y h w None = Inr (Some (zeros h w))"
  by (simp add: warp_previous_def)

lemma warp_previous_all_zero:
  assumes "remap_keeps_zero cv" "all_zero m" "warp_previous cv map_x map_y h w (Some m) = Inr r"
  shows "\<exists>m'. r = Some m' \<and> all_zero m'"
proof -
  from assms(3) obtain warped where
    w: "remap cv (astype_float32 m) map_x map_y = Some warped" and r: "r = Some (threshold warped)"
    by (auto simp: warp_previous_def split: option.splits)
  from assms(1) all_zero_astype_float32 [OF assms(2)] w have "below_threshold warped"
    unfolding remap_keeps_zero_def by blast
  with r show ?thesis
    by (simp add: all_zero_threshold)
qed

lemma step_rel_length: "step_rel cv fp i st ms ms' \<Longrightarrow> length ms' = length ms"
  by (auto simp: step_rel_def split: option.splits)

lemma step_rel_other: "step_rel cv fp i st ms ms' \<Longrightarrow> j \<noteq> i \<Longrightarrow> ms' ! j = ms ! j"
  by (auto simp: step_rel_def split: option.splits)

lemma step_ok_preserved:
  assumes "step_rel cv fp i st ms ms'" "j < i" "step_ok cv fp j ms"
  shows "step_ok cv fp j ms'"
proof -
  from assms(1,2) have "ms' ! j = ms ! j" "ms' ! (j - 1) = ms ! (j - 1)"
    by (simp_all add: step_rel_other)
  with assms(3) show ?thesis
    by (simp add: step_ok_def)
qed

lemma step_ok_new:
  assumes rel: "step_rel cv fp i st ms ms'"
    and i: "1 \<le> i" "i < length ms"
    and prev: "prev_gray st = last_good cv fp (i - 1)"
  shows "step_ok cv fp i ms'"
proof (cases "imread_grayscale cv (fp ! i)")
  case None
  with rel have "ms' = ms[i := ms ! (i - 1)]"
    by (simp add: step_rel_def)
  with i have "ms' ! i = ms' ! (i - 1)"
    by simp
  with None show ?thesis
    by (auto simp: step_ok_def)
next
  case (Some g)
  with rel prev obtain p map_x map_y m where
    p: "last_good cv fp (i - 1) = Some p"
    and w: "warp_previous cv map_x map_y (fst (shape p)) (snd (shape p)) (ms ! (i - 1)) = Inr m"
    and ms': "ms' = ms[i := m]"
    by (auto simp: step_rel_def)
  from ms' i have at_i: "ms' ! i = m" and before: "ms' ! (i - 1) = ms ! (i - 1)"
    by simp_all
  have zero: "ms ! (i - 1) = None \<Longrightarrow> m = Some (zeros (fst (shape p)) (snd (shape p)))"
    using w by (simp add: warp_previous_None)
  have keep: "\<exists>m'. m = Some m' \<and> all_zero m'"
    if "remap_keeps_zero cv" "ms ! (i - 1) = Some z" "all_zero z" for z
    using warp_previous_all_zero [OF that(1) that(3)] w that(2) by simp
  show ?thesis
    unfolding step_ok_def at_i before
    using Some p zero keep by auto
qed

lemma propagate_invariant:
  assumes "run_steps (propagate_step cv fp) [1..<b] s0 = Inr s"
    and "prev_gray s0 = imread_grayscale cv (fp ! 0)"
    and "\<forall>x\<in>set (all_masks s0). length (snd x) = tot"
    and "b \<le> tot"
  shows "prev_gray s = last_good cv fp (b - 1) \<and>
         flow_steps s = flow_steps s0 @ filter (\<lambda>j. imread_grayscale cv (fp ! j) \<noteq> None) [1..<b] \<and>
         map fst (all_masks s) = map fst (all_masks s0) \<and>
         (\<forall>y\<in>set (all_masks s). length (snd y) = tot \<and>
            (\<forall>j. 1 \<le> j \<and> j < b \<longrightarrow> step_ok cv fp j (snd y)))"
  using assms(1,4)
proof (induction b arbitrary: s)
  case 0
  then show ?case
    using assms(2,3) by simp
next
  case (Suc b)
  show ?case
  proof (cases "b = 0")
    case True
    with Suc.prems show ?thesis
      using assms(2,3) by simp
  next
    case False
    then have b: "1 \<le> b" by simp
    from Suc.prems(1) run_steps_upt_Suc [OF b, of "propagate_step cv fp" s0 s] obtain s1 where
      s1: "run_steps (propagate_step cv fp) [1..<b] s0 = Inr s1"
      and step: "propagate_step cv fp b s1 = Inr s"
      by blast
    from Suc.prems(2) have "b \<le> tot" "b < tot" by simp_all
    from Suc.IH [OF s1 \<open>b \<le> tot\<close>] have
      ih_prev: "prev_gray s1 = last_good cv fp (b - 1)"
      and ih_flow: "flow_steps s1 = flow_steps s0 @ filter (\<lambda>j. imread_grayscale cv (fp ! j) \<noteq> None) [1..<b]"
      and ih_keys: "map fst (all_masks s1) = map fst (all_masks s0)"
      and ih_objs: "\<forall>y\<in>set (all_masks s1). length (snd y) = tot \<and>
            (\<forall>j. 1 \<le> j \<and> j < b \<longrightarrow> step_ok cv fp j (snd y))"
      by blast+
    note rel = propagate_step_rel [OF step]
    from b obtain b' where b': "b = Suc b'"
      by (cases b) simp_all
    have prev: "prev_gray s = last_good cv fp (Suc b - 1)"
      using propagate_step_prev_gray [OF step] ih_prev b' by (simp split: option.splits)
    have flow: "flow_steps s = flow_steps s0 @ filter (\<lambda>j. imread_grayscale cv (fp ! j) \<noteq> None) [1..<Suc b]"
      using propagate_step_flow_steps [OF step] ih_flow b by simp
    have keys: "map fst (all_masks s) = map fst (all_masks s0)"
    proof -
      from rel have "list_all2 (\<lambda>x y. fst y = fst x) (all_masks s1) (all_masks s)"
        by (rule list_all2_mono) simp
      then have "map fst (all_masks s) = map fst (all_masks s1)"
        by (induction rule: list_all2_induct) simp_all
      with ih_keys show ?thesis by simp
    qed
    have objs: "\<forall>y\<in>set (all_masks s). length (snd y) = tot \<and>
            (\<forall>j. 1 \<le> j \<and> j < Suc b \<longrightarrow> step_ok cv fp j (snd y))"
    proof
      fix y assume "y \<in> set (all_masks s)"
      then obtain n where n: "n < length (all_masks s)" "all_masks s ! n = y"
        by (auto simp: in_set_conv_nth)
      let ?x = "all_masks s1 ! n"
      from rel n have len: "n < length (all_masks s1)"
        and r: "step_rel cv fp b s1 (snd ?x) (snd y)"
        by (auto simp: list_all2_conv_all_nth)
      from len have "?x \<in> set (all_masks s1)" by simp
      with ih_objs have xl: "length (snd ?x) = tot"
        and xok: "\<And>j. 1 \<le> j \<Longrightarrow> j < b \<Longrightarrow> step_ok cv fp j (snd ?x)"
        by blast+
      have "step_ok cv fp j (snd y)" if "1 \<le> j" "j < Suc b" for j
      proof (cases "j = b")
        case True
        from step_ok_new [OF r b _ ih_prev] xl \<open>b < tot\<close> True show ?thesis
          by simp
      next
        case False
        with that have "j < b" by simp
        from step_ok_preserved [OF r this xok [OF that(1) this]] show ?thesis .
      qed
      with step_rel_length [OF r] xl show "length (snd y) = tot \<and>
            (\<forall>j. 1 \<le> j \<and> j < Suc b \<longrightarrow> step_ok cv fp j (snd y))"
        by simp
    qed
    from prev flow keys objs show ?thesis
      by blast
  qed
qed

lemma fallback_propagate_run:
  assumes "fallback_propagate cv fp initial_masks tot = Inr st"
  shows "run_steps (propagate_step cv fp) [1..<tot]
           \<lparr>all_masks = map (\<lambda>(obj_id, m). (obj_id, (replicate tot None)[0 := m])) initial_masks,
            prev_gray = imread_grayscale cv (fp ! 0), flow_steps = []\<rparr> = Inr st"
  using assms by (auto simp: fallback_propagate_def split: if_splits list.splits)

lemma fallback_propagate_invariant:
  assumes "fallback_propagate cv fp initial_masks tot = Inr st"
  shows "prev_gray st = last_good cv fp (tot - 1) \<and>
         flow_steps st = filter (\<lambda>j. imread_grayscale cv (fp ! j) \<noteq> None) [1..<tot] \<and>
         map fst (all_masks st) = map fst initial_masks \<and>
         (\<forall>y\<in>set (all_masks st). length (snd y) = tot \<and>
            (\<forall>j. 1 \<le> j \<and> j < tot \<longrightarrow> step_ok cv fp j (snd y)))"
proof -
  let ?s0 = "\<lparr>all_masks = map (\<lambda>(obj_id, m). (obj_id, (replicate tot None)[0 := m])) initial_masks,
            prev_gray = imread_grayscale cv (fp ! 0), flow_steps = []\<rparr>"
  have keys: "map fst (all_masks ?s0) = map fst initial_masks"
    by (simp add: case_prod_beta comp_def)
  have "prev_gray ?s0 = imread_grayscale cv (fp ! 0)"
    and "\<forall>x\<in>set (all_masks ?s0). length (snd x) = tot"
    by auto
  from propagate_invariant [OF fallback_propagate_run [OF assms] this order_refl] keys
  show ?thesis
    by simp
qed

text \<open>
  Claim C2: when \<open>_fallback_propagate\<close> returns, the result has the objects of
  \<open>initial_masks\<close>, and for every step \<open>i \<ge> 1\<close> whose frame cannot be read every object's
  mask at index \<open>i\<close> is its mask at index \<open>i - 1\<close> (an absent mask included), and
  \<open>cv2.calcOpticalFlowFarneback\<close> is not called at step \<open>i\<close>.
\<close>

theorem fallback_propagate_holds_last_mask:
  assumes "fallback_propagate cv frame_paths initial_masks total_frames = Inr st"
    and "1 \<le> i" and "i < total_frames"
    and "imread_grayscale cv (frame_paths ! i) = None"
  shows "map fst (all_masks st) = map fst initial_masks \<and>
         (\<forall>x\<in>set (all_masks st). snd x ! i = snd x ! (i - 1)) \<and>
         i \<notin> set (flow_steps st)"
proof -
  note inv = fallback_propagate_invariant [OF assms(1)]
  have "snd x ! i = snd x ! (i - 1)" if "x \<in> set (all_masks st)" for x
  proof -
    from inv that assms(2,3) have "step_ok cv frame_paths i (snd x)"
      by blast
    with assms(4) show ?thesis
      by (simp add: step_ok_def)
  qed
  moreover from inv assms(4) have "i \<notin> set (flow_steps st)"
    by simp
  ultimately show ?thesis
    using inv by blast
qed

lemma ex_fallback_result:
  "fallback_propagate ex_cv2 ex_paths ex_initial_masks 3 = Inr ex_propagated"
  by code_simp

theorem fallback_propagate_holds_last_mask_witness:
  "fallback_propagate ex_cv2 ex_paths ex_initial_masks 3 = Inr ex_propagated \<and>
   imread_grayscale ex_cv2 (ex_paths ! 1) = None \<and>
   map fst (all_masks ex_propagated) = map fst ex_initial_masks \<and>
   snd (all_masks ex_propagated ! 0) ! 1 = snd (all_masks ex_propagated ! 0) ! (1 - 1) \<and>
   snd (all_masks ex_propagated ! 1) ! 1 = snd (all_masks ex_propagated ! 1) ! (1 - 1) \<and>
   1 \<notin> set (flow_steps ex_propagated)"
proof -
  note h1 = ex_fallback_result
  have h2: "(1 :: nat) \<le> 1" by simp
  have h3: "(1 :: nat) < 3" by simp
  have h4: "imread_grayscale ex_cv2 (ex_paths ! 1) = None"
    by code_simp
  note r = fallback_propagate_holds_last_mask [OF h1 h2 h3 h4]
  have m0: "all_masks ex_propagated ! 0 \<in> set (all_masks ex_propagated)"
    and m1: "all_masks ex_propagated ! 1 \<in> set (all_masks ex_propagated)"
    by (simp_all add: ex_propagated_def)
  note objs = r [THEN conjunct2, THEN conjunct1]
  show ?thesis
    by (intro conjI h1 h4 r [THEN conjunct1] objs [THEN bspec, OF m0] objs [THEN bspec, OF m1]
        r [THEN conjunct2, THEN conjunct2])
qed

text \<open>
  Claim C7: when \<open>_fallback_propagate\<close> returns, frame \<open>i \<ge> 1\<close> is readable and an
  object's mask at index \<open>i - 1\<close> is absent, the object's mask at index \<open>i\<close> is present
  and is the all-zero mask with the shape of \<open>prev_gray\<close>, the last frame read before \<open>i\<close>.
  Nothing detects the object again: every later mask of the object is a warp of that
  mask or a copy, and is all-zero, given that remapping an all-zero image yields no value
  above the threshold 0.5.
\<close>

theorem fallback_propagate_lost_object:
  assumes "fallback_propagate cv frame_paths initial_masks total_frames = Inr st"
    and "1 \<le> i" and "i < total_frames"
    and "imread_grayscale cv (frame_paths ! i) = Some g"
    and "(obj_id, ms) \<in> set (all_masks st)"
    and "ms ! (i - 1) = None"
  shows "(\<exists>prev. last_good cv frame_paths (i - 1) = Some prev \<and>
                 ms ! i = Some (zeros (fst (shape prev)) (snd (shape prev)))) \<and>
         (remap_keeps_zero cv \<longrightarrow>
            (\<forall>j. i \<le> j \<and> j < total_frames \<longrightarrow> (\<exists>m. ms ! j = Some m \<and> all_zero m)))"
proof -
  note inv = fallback_propagate_invariant [OF assms(1)]
  from inv assms(5) have ok: "step_ok cv frame_paths j ms" if "1 \<le> j" "j < total_frames" for j
    using that by fastforce
  from ok [OF assms(2,3)] assms(4,6)
  have first: "\<exists>prev. last_good cv frame_paths (i - 1) = Some prev \<and>
                 ms ! i = Some (zeros (fst (shape prev)) (snd (shape prev)))"
    by (simp add: step_ok_def)
  have later: "\<exists>m. ms ! j = Some m \<and> all_zero m"
    if keep: "remap_keeps_zero cv" and j: "i \<le> j" "j < total_frames" for j
    using j
  proof (induction j rule: dec_induct)
    case base
    from first show ?case
      by (auto simp: all_zero_zeros)
  next
    case (step n)
    then obtain m where m: "ms ! n = Some m" "all_zero m"
      by auto
    from step assms(2) have "1 \<le> Suc n" "Suc n < total_frames"
      by simp_all
    from ok [OF this] keep m show ?case
      by (simp add: step_ok_def)
  qed
  from first later show ?thesis
    by blast
qed

lemma remap_keeps_zero_ex: "remap_keeps_zero ex_cv2"
  by (fastforce simp: remap_keeps_zero_def ex_cv2_def all_zero_def below_threshold_def list_all_iff
      split: if_splits)

theorem fallback_propagate_lost_object_witness:
  "fallback_propagate ex_cv2 ex_paths ex_initial_masks 3 = Inr ex_propagated \<and>
   imread_grayscale ex_cv2 (ex_paths ! 2) = Some [[20, 20, 20, 20, 20]] \<and>
   (1, ex_lost_masks) \<in> set (all_masks ex_propagated) \<and>
   ex_lost_masks ! (2 - 1) = None \<and>
   (\<exists>prev. last_good ex_cv2 ex_paths (2 - 1) = Some prev \<and>
           ex_lost_masks ! 2 = Some (zeros (fst (shape prev)) (snd (shape prev)))) \<and>
   (\<exists>m. ex_lost_masks ! 2 = Some m \<and> all_zero m)"
proof -
  note h1 = ex_fallback_result
  have h2: "(1 :: nat) \<le> 2" by simp
  have h3: "(2 :: nat) < 3" by simp
  have h4: "imread_grayscale ex_cv2 (ex_paths ! 2) = Some [[20, 20, 20, 20, 20]]"
    by code_simp
  have h5: "(1, ex_lost_masks) \<in> set (all_masks ex_propagated)"
    by (simp add: ex_propagated_def ex_lost_masks_def)
  have h6: "ex_lost_masks ! (2 - 1) = None"
    by (simp add: ex_lost_masks_def)
  note r = fallback_propagate_lost_object [OF h1 h2 h3 h4 h5 h6]
  have range: "(2 :: nat) \<le> 2 \<and> (2 :: nat) < 3" by simp
  note later = r [THEN conjunct2, THEN mp, OF remap_keeps_zero_ex, THEN spec, THEN mp, OF range]
  show ?thesis
    by (intro conjI h1 h4 h5 h6 r [THEN conjunct1] later)
qed

subsection \<open>The preview query loop\<close>

text \<open>
  Claim C9 does not hold as stated: a line that is empty after \<open>strip()\<close> is skipped and
  gets no response line. Two lines are read here, a blank one and a query, and one line
  is printed.
\<close>

theorem query_loop_blank_line_counterexample:
  "query_loop ex_preview [[CHR 0x0A], ''{\"x\": 1, \"y\": 2}'' @ [CHR 0x0A]] =
     [''{\"bbox\": [0, 0, 2, 2], \"polygon\": [[0, 0]], \"score\": 0.9, \"centroid\": [0.5, 0.5]}''] \<and>
   length (query_loop ex_preview [[CHR 0x0A], ''{\"x\": 1, \"y\": 2}'' @ [CHR 0x0A]]) <
     length [[CHR 0x0A], ''{\"x\": 1, \"y\": 2}'' @ [CHR 0x0A]]"
  by (simp add: strip_def is_space_def ex_preview_def respond_def)

text \<open>
  Claim C9 as amended: the lines printed by the query loop are, in order, one response
  for each input line that is not blank after stripping, up to the first line that strips
  to \<open>QUIT\<close> or to the end of the input. The response is the result when the request
  succeeds and the \<open>{"error": ...}\<close> object when it raises; a request that raises does
  not end the loop, and blank lines print nothing.
\<close>

theorem query_loop_responses:
  "query_loop pv lines =
     map (\<lambda>raw. case answer pv (strip raw) of Inr out \<Rightarrow> out | Inl msg \<Rightarrow> json_error pv msg)
       (filter (\<lambda>raw. strip raw \<noteq> [])
         (takeWhile (\<lambda>raw. strip raw \<noteq> ''QUIT'') lines))"
  by (induction lines) (simp_all add: Let_def respond_def)

subsection \<open>The batch orchestrator\<close>

lemma analyze_frame_motion:
  assumes "analyze_frame cv p m prev = Inr a"
  shows "motion_vector a =
           (case prev of
              None \<Rightarrow> (0, 0)
            | Some q \<Rightarrow> (py_round (fst (centroid a) - fst q) 2,
                         py_round (snd (centroid a) - snd q) 2))"
  using assms
  by (auto simp: analyze_frame_def Let_def split: prod.splits sum.splits option.splits if_splits)

lemma last_present_less: "last_present ms n = Some j \<Longrightarrow> j < n"
  by (induction n) (auto split: if_splits)

lemma last_present_None: "(\<forall>j<n. ms ! j = None) \<Longrightarrow> last_present ms n = None"
  by (induction n) auto

lemma last_present_Some:
  "j < n \<Longrightarrow> ms ! j \<noteq> None \<Longrightarrow> (\<forall>l. j < l \<and> l < n \<longrightarrow> ms ! l = None) \<Longrightarrow>
   last_present ms n = Some j"
proof (induction n)
  case 0
  then show ?case by simp
next
  case (Suc n)
  show ?case
  proof (cases "j = n")
    case True
    with Suc.prems show ?thesis by simp
  next
    case False
    with Suc.prems have "j < n" "ms ! n = None"
      by simp_all
    with Suc show ?thesis by simp
  qed
qed

lemma entry_ok_append:
  assumes "k < length fs" "entry_ok cv fp cw ch ms fs k"
  shows "entry_ok cv fp cw ch ms (fs @ [x]) k"
proof -
  have "centroid ((fs @ [x]) ! j) = centroid (fs ! j)" if "last_present ms k = Some j" for j
    using last_present_less [OF that] assms(1) by (simp add: nth_append)
  then have "map_option (\<lambda>j. centroid ((fs @ [x]) ! j)) (last_present ms k) =
             map_option (\<lambda>j. centroid (fs ! j)) (last_present ms k)"
    by (cases "last_present ms k") simp_all
  moreover have "(fs @ [x]) ! k = fs ! k"
    using assms(1) by (simp add: nth_append)
  ultimately show ?thesis
    using assms(2) by (simp only: entry_ok_def)
qed

lemma analyze_step_None:
  assumes "analyze_step cv fp cw ch ms i st = Inr st'" "ms ! i = None"
  shows "st' = st\<lparr>frames := frames st @ [default_frame cw ch i]\<rparr>"
  using assms by (auto simp: analyze_step_def split: if_splits)

lemma analyze_step_Some:
  assumes "analyze_step cv fp cw ch ms i st = Inr st'" "ms ! i = Some m"
  shows "\<exists>a. analyze_frame cv (fp ! i) m (prev_centroid st) = Inr a \<and>
             st' = \<lparr>frames = frames st @ [analyzed_frame cw ch i a],
                    prev_centroid = Some (centroid a)\<rparr>"
  using assms by (auto simp: analyze_step_def split: if_splits sum.splits)

lemma analyze_step_in_range:
  "analyze_step cv fp cw ch ms i st = Inr st' \<Longrightarrow> i < length ms"
  by (auto simp: analyze_step_def split: if_splits)

lemma centroid_analyzed_frame: "centroid (analyzed_frame cw ch k a) = centroid a"
  by (simp add: analyzed_frame_def)

lemma nth_append_last: "length xs = b \<Longrightarrow> (xs @ [x]) ! b = x"
  by auto

lemma track_invariant:
  assumes "run_steps (analyze_step cv fp cw ch ms) [0..<b] \<lparr>frames = [], prev_centroid = None\<rparr> = Inr s"
  shows "length (frames s) = b \<and> b \<le> length ms \<and>
         prev_centroid s = map_option (\<lambda>j. centroid (frames s ! j)) (last_present ms b) \<and>
         (\<forall>k<b. entry_ok cv fp cw ch ms (frames s) k)"
  using assms
proof (induction b arbitrary: s)
  case 0
  then show ?case by auto
next
  case (Suc b)
  from Suc.prems run_steps_upt_Suc [of 0 b "analyze_step cv fp cw ch ms"] obtain s1 where
    s1: "run_steps (analyze_step cv fp cw ch ms) [0..<b] \<lparr>frames = [], prev_centroid = None\<rparr> = Inr s1"
    and step: "analyze_step cv fp cw ch ms b s1 = Inr s"
    by blast
  from Suc.IH [OF s1] have len: "length (frames s1) = b"
    and prev: "prev_centroid s1 = map_option (\<lambda>j. centroid (frames s1 ! j)) (last_present ms b)"
    and ok: "\<And>k. k < b \<Longrightarrow> entry_ok cv fp cw ch ms (frames s1) k"
    by blast+
  from analyze_step_in_range [OF step] have range: "Suc b \<le> length ms"
    by simp
  show ?case
  proof (cases "ms ! b")
    case None
    from analyze_step_None [OF step None]
    have s: "s = s1\<lparr>frames := frames s1 @ [default_frame cw ch b]\<rparr>" .
    have keep: "map_option (\<lambda>j. centroid ((frames s1 @ [default_frame cw ch b]) ! j)) (last_present ms b) =
                map_option (\<lambda>j. centroid (frames s1 ! j)) (last_present ms b)"
    proof (cases "last_present ms b")
      case None
      then show ?thesis by simp
    next
      case (Some j)
      with last_present_less [OF Some] len show ?thesis
        by (simp add: nth_append)
    qed
    have new: "entry_ok cv fp cw ch ms (frames s) b"
      using None len by (simp add: s entry_ok_def nth_append_last)
    have old: "entry_ok cv fp cw ch ms (frames s) k" if "k < b" for k
      using entry_ok_append [of k "frames s1", OF _ ok [OF that]] that len by (simp add: s)
    have all: "\<forall>k<Suc b. entry_ok cv fp cw ch ms (frames s) k"
      using new old by (auto simp: less_Suc_eq)
    from len range prev keep None all show ?thesis
      by (simp add: s)
  next
    case (Some m)
    from analyze_step_Some [OF step Some] obtain a where
      a: "analyze_frame cv (fp ! b) m (prev_centroid s1) = Inr a"
      and s: "s = \<lparr>frames = frames s1 @ [analyzed_frame cw ch b a], prev_centroid = Some (centroid a)\<rparr>"
      by blast
    have keep: "map_option (\<lambda>j. centroid ((frames s1 @ [analyzed_frame cw ch b a]) ! j)) (last_present ms b) =
                map_option (\<lambda>j. centroid (frames s1 ! j)) (last_present ms b)"
    proof (cases "last_present ms b")
      case None
      then show ?thesis by simp
    next
      case (Some j)
      with last_present_less [OF Some] len show ?thesis
        by (simp add: nth_append)
    qed
    have new: "entry_ok cv fp cw ch ms (frames s) b"
      using Some len a prev keep by (simp add: s entry_ok_def nth_append_last)
    have old: "entry_ok cv fp cw ch ms (frames s) k" if "k < b" for k
      using entry_ok_append [of k "frames s1", OF _ ok [OF that]] that len by (simp add: s)
    have all: "\<forall>k<Suc b. entry_ok cv fp cw ch ms (frames s) k"
      using new old by (auto simp: less_Suc_eq)
    have "prev_centroid s = map_option (\<lambda>j. centroid (frames s ! j)) (last_present ms (Suc b))"
      using Some len by (simp add: s centroid_analyzed_frame nth_append_last)
    with len range all show ?thesis
      by (simp add: s)
  qed
qed

lemma track_frames_entries:
  assumes "track_frames cv fp cw ch ms = Inr st"
  shows "length (frames st) = length fp \<and> length fp \<le> length ms \<and>
         (\<forall>k<length fp. entry_ok cv fp cw ch ms (frames st) k)"
  using track_invariant [OF assms [unfolded track_frames_def]] by blast

lemma entry_ok_motion:
  assumes "entry_ok cv fp cw ch ms fs k" "ms ! k = Some m"
  shows "motion_vector (fs ! k) =
           (case last_present ms k of
              None \<Rightarrow> (0, 0)
            | Some j \<Rightarrow> (py_round (fst (centroid (fs ! k)) - fst (centroid (fs ! j))) 2,
                         py_round (snd (centroid (fs ! k)) - snd (centroid (fs ! j))) 2))"
proof -
  from assms obtain a where
    a: "analyze_frame cv (fp ! k) m (map_option (\<lambda>j. centroid (fs ! j)) (last_present ms k)) = Inr a"
    and fs: "fs ! k = analyzed_frame cw ch k a"
    by (auto simp: entry_ok_def)
  from analyze_frame_motion [OF a] fs show ?thesis
    by (cases "last_present ms k") (simp_all add: analyzed_frame_def)
qed

lemma ex_run_result:
  "run_segment_and_track ex_cv2 ex_propagate ex_frame_paths ex_seed_masks 5 1
     = Inr (Results [(0, ex_track)])"
  by code_simp

text \<open>
  Claim C10 does not hold as stated for the track that the orchestrator outputs: the
  smoothing pass of line 117 rewrites the motion vectors that the loop computed. In the
  run below the masks of frames 0 and 1 are present. Frame 0, the first frame with a
  present mask, ends with motion vector \<open>(2, 0)\<close> and not \<open>(0, 0)\<close>; frame 1 ends with
  \<open>(2, 0)\<close> although its centroid is 4 pixels from that of frame 0.
\<close>

theorem run_segment_and_track_first_motion_counterexample:
  "run_segment_and_track ex_cv2 ex_propagate ex_frame_paths ex_seed_masks 5 1
     = Inr (Results [(0, ex_track)]) \<and>
   ex_propagate ex_frame_paths ex_seed_masks = Inr ex_masks \<and>
   snd (ex_masks ! 0) ! 0 = Some [[1, 0, 0, 0, 0]] \<and>
   snd (ex_masks ! 0) ! 1 = Some [[0, 0, 0, 0, 1]] \<and>
   motion_vector (ex_track ! 0) = (2, 0) \<and>
   centroid (ex_track ! 0) = (0, 0) \<and>
   centroid (ex_track ! 1) = (4, 0) \<and>
   motion_vector (ex_track ! 1) = (2, 0)"
proof -
  have "ex_propagate ex_frame_paths ex_seed_masks = Inr ex_masks"
    by (simp add: ex_propagate_def)
  moreover have "snd (ex_masks ! 0) ! 0 = Some [[1, 0, 0, 0, 0]]"
    and "snd (ex_masks ! 0) ! 1 = Some [[0, 0, 0, 0, 1]]"
    by (simp_all add: ex_masks_def)
  moreover have "motion_vector (ex_track ! 0) = (2, 0)"
    and "centroid (ex_track ! 0) = (0, 0)"
    and "centroid (ex_track ! 1) = (4, 0)"
    and "motion_vector (ex_track ! 1) = (2, 0)"
    by (simp_all add: ex_track_def)
  ultimately show ?thesis
    using ex_run_result by (intro conjI)
qed

text \<open>
  Claim C10 as amended: it holds for the entries as the loop of lines 83 to 111 builds
  them, before the smoothing pass. Let the loop return and let the mask of frame \<open>k\<close> be
  present. If no earlier mask is present, the entry of frame \<open>k\<close> is built with motion
  vector \<open>(0, 0)\<close>. If \<open>j\<close> is the last earlier frame with a present mask, the motion
  vector is the rounded difference of the centroids of the entries \<open>k\<close> and \<open>j\<close>, whatever
  default entries lie between them, so the canvas-centre centroid of a default entry is
  never the reference. An iteration on an absent mask leaves \<open>prev_centroid\<close> as it was.
  For fewer than three frames the smoothing pass changes nothing and the entries built by
  the loop are the track of the object.
\<close>

theorem track_frames_motion_reference:
  assumes "track_frames cv frame_paths comp_width comp_height masks_list = Inr st"
    and "k < length frame_paths"
    and "masks_list ! k = Some m"
  shows "((\<forall>j<k. masks_list ! j = None) \<longrightarrow> motion_vector (frames st ! k) = (0, 0)) \<and>
         (\<forall>j<k. masks_list ! j \<noteq> None \<and> (\<forall>l. j < l \<and> l < k \<longrightarrow> masks_list ! l = None) \<longrightarrow>
            motion_vector (frames st ! k) =
              (py_round (fst (centroid (frames st ! k)) - fst (centroid (frames st ! j))) 2,
               py_round (snd (centroid (frames st ! k)) - snd (centroid (frames st ! j))) 2)) \<and>
         (\<forall>i s s'. masks_list ! i = None \<and>
              analyze_step cv frame_paths comp_width comp_height masks_list i s = Inr s' \<longrightarrow>
              prev_centroid s' = prev_centroid s) \<and>
         (length frame_paths < 3 \<longrightarrow>
            track_object cv frame_paths comp_width comp_height masks_list = Inr (frames st))"
proof -
  from track_frames_entries [OF assms(1)] assms(2)
  have "entry_ok cv frame_paths comp_width comp_height masks_list (frames st) k"
    by blast
  note mv = entry_ok_motion [OF this assms(3)]
  have first: "motion_vector (frames st ! k) = (0, 0)" if "\<forall>j<k. masks_list ! j = None"
    using mv last_present_None [OF that] by simp
  have later: "motion_vector (frames st ! k) =
              (py_round (fst (centroid (frames st ! k)) - fst (centroid (frames st ! j))) 2,
               py_round (snd (centroid (frames st ! k)) - snd (centroid (frames st ! j))) 2)"
    if "j < k" "masks_list ! j \<noteq> None" "\<forall>l. j < l \<and> l < k \<longrightarrow> masks_list ! l = None" for j
    using mv last_present_Some [OF that] by simp
  have skip: "prev_centroid s' = prev_centroid s"
    if "masks_list ! i = None"
      "analyze_step cv frame_paths comp_width comp_height masks_list i s = Inr s'" for i s s'
    using analyze_step_None [OF that(2) that(1)] by simp
  from track_frames_entries [OF assms(1)] have len: "length (frames st) = length frame_paths"
    by blast
  have short: "track_object cv frame_paths comp_width comp_height masks_list = Inr (frames st)"
    if "length frame_paths < 3"
    using that len assms(1) by (simp add: track_object_def smooth_motion_vectors_short)
  from first later skip short show ?thesis
    by blast
qed

theorem track_frames_motion_reference_witness:
  "track_frames ex_cv2 ex_frame_paths 5 1 ex_gap_masks = Inr ex_gap_state \<and>
   ex_gap_masks ! 0 = Some [[1, 0, 0, 0, 0]] \<and>
   ex_gap_masks ! 1 = None \<and>
   ex_gap_masks ! 2 = Some [[0, 0, 0, 0, 1]] \<and>
   motion_vector (frames ex_gap_state ! 0) = (0, 0) \<and>
   motion_vector (frames ex_gap_state ! 2) =
     (py_round (fst (centroid (frames ex_gap_state ! 2)) - fst (centroid (frames ex_gap_state ! 0))) 2,
      py_round (snd (centroid (frames ex_gap_state ! 2)) - snd (centroid (frames ex_gap_state ! 0))) 2) \<and>
   motion_vector (frames ex_gap_state ! 2) = (4, 0) \<and>
   centroid (frames ex_gap_state ! 1) = (5 / 2, 1 / 2)"
proof -
  have run: "track_frames ex_cv2 ex_frame_paths 5 1 ex_gap_masks = Inr ex_gap_state"
    by code_simp
  have m0: "ex_gap_masks ! 0 = Some [[1, 0, 0, 0, 0]]"
    and m1: "ex_gap_masks ! 1 = None"
    and m2: "ex_gap_masks ! 2 = Some [[0, 0, 0, 0, 1]]"
    by (simp_all add: ex_gap_masks_def)
  have k0: "0 < length ex_frame_paths" and k2: "2 < length ex_frame_paths"
    by (simp_all add: ex_frame_paths_def)
  have none_before: "\<forall>j<0. ex_gap_masks ! j = None"
    by simp
  have gap: "ex_gap_masks ! 0 \<noteq> None \<and> (\<forall>l. 0 < l \<and> l < 2 \<longrightarrow> ex_gap_masks ! l = None)"
  proof (intro conjI allI impI)
    show "ex_gap_masks ! 0 \<noteq> None"
      using m0 by simp
  next
    fix l :: nat assume "0 < l \<and> l < 2"
    then have "l = 1" by simp
    with m1 show "ex_gap_masks ! l = None" by simp
  qed
  note first = track_frames_motion_reference [OF run k0 m0, THEN conjunct1, THEN mp, OF none_before]
  have "(0 :: nat) < 2" by simp
  note later = track_frames_motion_reference [OF run k2 m2, THEN conjunct2, THEN conjunct1,
      THEN spec, THEN mp, OF this, THEN mp, OF gap]
  have v: "motion_vector (frames ex_gap_state ! 2) = (4, 0)"
    and c: "centroid (frames ex_gap_state ! 1) = (5 / 2, 1 / 2)"
    by (simp_all add: ex_gap_state_def)
  show ?thesis
    by (intro conjI run m0 m1 m2 first later v c)
qed

lemma entry_ok_frame_index: "entry_ok cv fp cw ch ms fs k \<Longrightarrow> frame_index (fs ! k) = k"
  by (auto simp: entry_ok_def default_frame_def analyzed_frame_def split: option.splits)

lemma entry_ok_absent: "entry_ok cv fp cw ch ms fs k \<Longrightarrow> ms ! k = None \<Longrightarrow> fs ! k = default_frame cw ch k"
  by (simp add: entry_ok_def)

lemma track_object_smoothed:
  assumes "track_object cv fp cw ch ms = Inr fs"
  shows "\<exists>st. track_frames cv fp cw ch ms = Inr st \<and> fs = smooth_motion_vectors (frames st) 3"
  using assms by (auto simp: track_object_def split: sum.splits)

lemma track_objects_rel:
  "track_objects cv fp cw ch am = Inr objs \<Longrightarrow>
   list_all2 (\<lambda>om obj. fst obj = fst om \<and> track_object cv fp cw ch (snd om) = Inr (snd obj)) am objs"
proof (induction am arbitrary: objs)
  case Nil
  then show ?case by simp
next
  case (Cons om am)
  then show ?case
    by (cases om) (auto split: sum.splits)
qed

lemma non_motion_fields_nth:
  assumes "map non_motion_fields xs = map non_motion_fields ys" "i < length ys"
  shows "non_motion_fields (xs ! i) = non_motion_fields (ys ! i)"
proof -
  from assms(1) have "length xs = length ys"
    by (rule map_eq_imp_length_eq)
  with assms(2) have "map non_motion_fields xs ! i = non_motion_fields (xs ! i)"
    "map non_motion_fields ys ! i = non_motion_fields (ys ! i)"
    by simp_all
  with assms(1) show ?thesis by simp
qed

lemma track_object_complete:
  assumes "track_object cv fp cw ch ms = Inr fs"
  shows "length fs = length fp \<and>
         (\<exists>st. track_frames cv fp cw ch ms = Inr st \<and>
               fs = smooth_motion_vectors (frames st) 3 \<and>
               (\<forall>i<length fp. ms ! i = None \<longrightarrow> frames st ! i = default_frame cw ch i)) \<and>
         (\<forall>i<length fp. frame_index (fs ! i) = i \<and>
            (ms ! i = None \<longrightarrow>
               non_motion_fields (fs ! i) = non_motion_fields (default_frame cw ch i) \<and>
               (length fp < 3 \<longrightarrow> fs ! i = default_frame cw ch i)))"
proof -
  from track_object_smoothed [OF assms] obtain st where
    st: "track_frames cv fp cw ch ms = Inr st" and fs: "fs = smooth_motion_vectors (frames st) 3"
    by blast
  from track_frames_entries [OF st] have len: "length (frames st) = length fp"
    and ok: "\<And>k. k < length fp \<Longrightarrow> entry_ok cv fp cw ch ms (frames st) k"
    by blast+
  have length: "length fs = length fp"
    by (simp add: fs len length_smooth_motion_vectors)
  have nmf: "non_motion_fields (fs ! i) = non_motion_fields (frames st ! i)" if "i < length fp" for i
    using non_motion_fields_nth [OF non_motion_fields_smooth_motion_vectors [of "frames st" 3], of i]
      that len by (simp add: fs)
  have absent: "frames st ! i = default_frame cw ch i" if "i < length fp" "ms ! i = None" for i
    using entry_ok_absent [OF ok [OF that(1)] that(2)] .
  have index: "frame_index (fs ! i) = i" if "i < length fp" for i
  proof -
    from nmf [OF that] have "frame_index (fs ! i) = frame_index (frames st ! i)"
      by (simp add: non_motion_fields_def)
    with entry_ok_frame_index [OF ok [OF that]] show ?thesis by simp
  qed
  have short: "fs = frames st" if "length fp < 3"
    using that len by (simp add: fs smooth_motion_vectors_short)
  from length st fs absent index nmf short show ?thesis
    by (intro conjI exI [of _ st] allI impI) simp_all
qed

text \<open>
  Claim C3 as amended. When a run over \<open>N\<close> frames produces results, the objects are
  those of the propagated masks in the order of their ids, and every object's track has
  exactly \<open>N\<close> entries, the entry at position \<open>i\<close> carrying \<open>frame_index = i\<close>. For an
  index whose mask is absent, the loop appends the fixed default entry, and in the
  resulting track every field of that entry other than \<open>motion_vector\<close> is the default's;
  the motion vector is the one the smoothing pass leaves there, which is the default's
  zero vector when \<open>N < 3\<close>.
\<close>

theorem run_segment_and_track_complete:
  assumes "run_segment_and_track cv propagate frame_paths initial_masks comp_width comp_height
             = Inr (Results objs)"
  shows "\<exists>masks. propagate frame_paths initial_masks = Inr masks \<and>
           list_all2
             (\<lambda>obj_masks obj.
                fst obj = fst obj_masks \<and>
                length (snd obj) = length frame_paths \<and>
                (\<exists>st. track_frames cv frame_paths comp_width comp_height (snd obj_masks) = Inr st \<and>
                      snd obj = smooth_motion_vectors (frames st) 3 \<and>
                      (\<forall>i<length frame_paths. snd obj_masks ! i = None \<longrightarrow>
                         frames st ! i = default_frame comp_width comp_height i)) \<and>
                (\<forall>i<length frame_paths.
                   frame_index (snd obj ! i) = i \<and>
                   (snd obj_masks ! i = None \<longrightarrow>
                      non_motion_fields (snd obj ! i) =
                        non_motion_fields (default_frame comp_width comp_height i) \<and>
                      (length frame_paths < 3 \<longrightarrow>
                         snd obj ! i = default_frame comp_width comp_height i))))
             (sort_key fst masks) objs"
proof -
  from assms obtain masks where
    masks: "propagate frame_paths initial_masks = Inr masks"
    and objs: "track_objects cv frame_paths comp_width comp_height (sort_key fst masks) = Inr objs"
    by (auto simp: run_segment_and_track_def split: if_splits sum.splits)
  from track_objects_rel [OF objs] have
    "list_all2
             (\<lambda>obj_masks obj.
                fst obj = fst obj_masks \<and>
                length (snd obj) = length frame_paths \<and>
                (\<exists>st. track_frames cv frame_paths comp_width comp_height (snd obj_masks) = Inr st \<and>
                      snd obj = smooth_motion_vectors (frames st) 3 \<and>
                      (\<forall>i<length frame_paths. snd obj_masks ! i = None \<longrightarrow>
                         frames st ! i = default_frame comp_width comp_height i)) \<and>
                (\<forall>i<length frame_paths.
                   frame_index (snd obj ! i) = i \<and>
                   (snd obj_masks ! i = None \<longrightarrow>
                      non_motion_fields (snd obj ! i) =
                        non_motion_fields (default_frame comp_width comp_height i) \<and>
                      (length frame_paths < 3 \<longrightarrow>
                         snd obj ! i = default_frame comp_width comp_height i))))
             (sort_key fst masks) objs"
  proof (rule list_all2_mono)
    fix om obj
    assume "fst obj = fst om \<and>
      track_object cv frame_paths comp_width comp_height (snd om) = Inr (snd obj)"
    then have k: "fst obj = fst om"
      and t: "track_object cv frame_paths comp_width comp_height (snd om) = Inr (snd obj)"
      by simp_all
    from track_object_complete [OF t] k
    show "fst obj = fst om \<and>
                length (snd obj) = length frame_paths \<and>
                (\<exists>st. track_frames cv frame_paths comp_width comp_height (snd om) = Inr st \<and>
                      snd obj = smooth_motion_vectors (frames st) 3 \<and>
                      (\<forall>i<length frame_paths. snd om ! i = None \<longrightarrow>
                         frames st ! i = default_frame comp_width comp_height i)) \<and>
                (\<forall>i<length frame_paths.
                   frame_index (snd obj ! i) = i \<and>
                   (snd om ! i = None \<longrightarrow>
                      non_motion_fields (snd obj ! i) =
                        non_motion_fields (default_frame comp_width comp_height i) \<and>
                      (length frame_paths < 3 \<longrightarrow>
                         snd obj ! i = default_frame comp_width comp_height i)))"
      by blast
  qed
  with masks show ?thesis
    by blast
qed

text \<open>
  Claim C3 does not hold as stated: in the resulting track the entry of an absent mask
  need not have a zero motion vector, because the smoothing pass rewrites the motion
  vector of every entry. In the run below the mask of frame 2 is absent and the entry at
  index 2 of the result has motion vector \<open>(1, 0)\<close>.
\<close>

theorem run_segment_and_track_absent_motion_counterexample:
  "run_segment_and_track ex_cv2 ex_propagate ex_frame_paths ex_seed_masks 5 1
     = Inr (Results [(0, ex_track)]) \<and>
   ex_propagate ex_frame_paths ex_seed_masks = Inr ex_masks \<and>
   snd (ex_masks ! 0) ! 2 = None \<and>
   motion_vector (ex_track ! 2) = (1, 0) \<and>
   motion_vector (default_frame 5 1 2) = (0, 0)"
proof -
  note ex_run_result
  moreover have "ex_propagate ex_frame_paths ex_seed_masks = Inr ex_masks"
    by (simp add: ex_propagate_def)
  moreover have "snd (ex_masks ! 0) ! 2 = None"
    by (simp add: ex_masks_def)
  moreover have "motion_vector (ex_track ! 2) = (1, 0)"
    by (simp add: ex_track_def)
  moreover have "motion_vector (default_frame 5 1 2) = (0, 0)"
    by (simp add: default_frame_def)
  ultimately show ?thesis
    by (intro conjI)
qed

theorem run_segment_and_track_complete_witness:
  "run_segment_and_track ex_cv2 ex_propagate ex_frame_paths ex_seed_masks 5 1
     = Inr (Results [(0, ex_track)]) \<and>
   length ex_track = length ex_frame_paths \<and>
   frame_index (ex_track ! 2) = 2 \<and>
   non_motion_fields (ex_track ! 2) = non_motion_fields (default_frame 5 1 2)"
proof -
  note run = ex_run_result
  from run_segment_and_track_complete [OF run] obtain masks where
    p: "ex_propagate ex_frame_paths ex_seed_masks = Inr masks"
    and l: "list_all2
             (\<lambda>obj_masks obj.
                fst obj = fst obj_masks \<and>
                length (snd obj) = length ex_frame_paths \<and>
                (\<exists>st. track_frames ex_cv2 ex_frame_paths 5 1 (snd obj_masks) = Inr st \<and>
                      snd obj = smooth_motion_vectors (frames st) 3 \<and>
                      (\<forall>i<length ex_frame_paths. snd obj_masks ! i = None \<longrightarrow>
                         frames st ! i = default_frame 5 1 i)) \<and>
                (\<forall>i<length ex_frame_paths.
                   frame_index (snd obj ! i) = i \<and>
                   (snd obj_masks ! i = None \<longrightarrow>
                      non_motion_fields (snd obj ! i) = non_motion_fields (default_frame 5 1 i) \<and>
                      (length ex_frame_paths < 3 \<longrightarrow> snd obj ! i = default_frame 5 1 i))))
             (sort_key fst masks) [(0, ex_track)]"
    by blast
  from p have masks: "sort_key fst masks = ex_masks"
    by (auto simp: ex_propagate_def ex_masks_def)
  from l have len: "length ex_track = length ex_frame_paths"
    and entries: "\<forall>i<length ex_frame_paths.
                   frame_index (ex_track ! i) = i \<and>
                   (snd (ex_masks ! 0) ! i = None \<longrightarrow>
                      non_motion_fields (ex_track ! i) = non_motion_fields (default_frame 5 1 i) \<and>
                      (length ex_frame_paths < 3 \<longrightarrow> ex_track ! i = default_frame 5 1 i))"
    unfolding masks by (simp_all add: ex_masks_def)
  have "2 < length ex_frame_paths"
    by (simp add: ex_frame_paths_def)
  with entries have at2: "frame_index (ex_track ! 2) = 2 \<and>
                   (snd (ex_masks ! 0) ! 2 = None \<longrightarrow>
                      non_motion_fields (ex_track ! 2) = non_motion_fields (default_frame 5 1 2) \<and>
                      (length ex_frame_paths < 3 \<longrightarrow> ex_track ! 2 = default_frame 5 1 2))"
    by blast
  have absent: "snd (ex_masks ! 0) ! 2 = None"
    by (simp add: ex_masks_def)
  from at2 absent have "frame_index (ex_track ! 2) = 2"
    and "non_motion_fields (ex_track ! 2) = non_motion_fields (default_frame 5 1 2)"
    by blast+
  with run len show ?thesis
    by (intro conjI)
qed

end
